theory Spec2Isabelle
  imports Main
begin

section \<open>Errors\<close>

text \<open>
  Every exception the pipeline can raise is a value. \<open>SystemExit\<close> carries the
  message the source passes to it; the others are the exceptions of the standard
  library, \<open>requests\<close>, \<open>pandas\<close> and \<open>duckdb\<close> calls the source makes.
  \<open>FrameError\<close> is the exception \<open>pd.DataFrame\<close> raises on a list it cannot read as
  records: its Python class depends on the pandas version (\<open>AttributeError\<close> up to
  pandas 2, \<open>TypeError\<close> in pandas 3), and in every version it is an \<open>Exception\<close>.
\<close>

datatype error =
    OverflowError
  | SystemExit string
  | RequestException
  | ParseError
  | FrameError
  | DuckDBError

section \<open>Dates, datetimes and timedeltas\<close>

text \<open>
  \<open>datetime.date\<close> is a triple; a \<open>datetime.datetime\<close> with no microseconds is the
  number of whole seconds since 0001-01-01T00:00:00, and is representable from 0 up to
  \<open>datetime_max\<close> (9999-12-31T23:59:59). A \<open>timedelta\<close> of whole seconds is that
  number of seconds; its day count is bounded by 999999999 in magnitude. Arithmetic
  leaving either range raises \<open>OverflowError\<close>.
\<close>

record date =
  year :: int
  month :: int
  day :: int

definition is_leap :: "int \<Rightarrow> bool" where
  "is_leap y = (y mod 4 = 0 \<and> (y mod 100 \<noteq> 0 \<or> y mod 400 = 0))"

definition days_before_year :: "int \<Rightarrow> int" where
  "days_before_year y = (y - 1) * 365 + (y - 1) div 4 - (y - 1) div 100 + (y - 1) div 400"

definition days_in_month :: "int \<Rightarrow> int \<Rightarrow> int" where
  "days_in_month y m =
     (if m = 2 then (if is_leap y then 29 else 28)
      else if m = 4 \<or> m = 6 \<or> m = 9 \<or> m = 11 then 30 else 31)"

definition days_before_month :: "int \<Rightarrow> int \<Rightarrow> int" where
  "days_before_month y m =
     [0, 31, 59, 90, 120, 151, 181, 212, 243, 273, 304, 334] ! nat (m - 1)
       + (if m > 2 \<and> is_leap y then 1 else 0)"

definition ymd2ord :: "date \<Rightarrow> int" where
  "ymd2ord d = days_before_year (year d) + days_before_month (year d) (month d) + day d"

definition valid_date :: "date \<Rightarrow> bool" where
  "valid_date d =
     (1 \<le> year d \<and> year d \<le> 9999 \<and> 1 \<le> month d \<and> month d \<le> 12 \<and>
      1 \<le> day d \<and> day d \<le> days_in_month (year d) (month d))"

type_synonym datetime = int
type_synonym timedelta = int

definition MAXORDINAL :: int where
  "MAXORDINAL = 3652059"

definition datetime_max :: datetime where
  "datetime_max = MAXORDINAL * 86400 - 1"

definition combine_midnight :: "date \<Rightarrow> datetime" where
  "combine_midnight d = (ymd2ord d - 1) * 86400"

definition timedelta_seconds :: "int \<Rightarrow> error + timedelta" where
  "timedelta_seconds n =
     (if \<bar>n div 86400\<bar> \<le> 999999999 then Inr n else Inl OverflowError)"

definition dt_add :: "datetime \<Rightarrow> timedelta \<Rightarrow> error + datetime" where
  "dt_add t d = (if 0 \<le> t + d \<and> t + d \<le> datetime_max then Inr (t + d) else Inl OverflowError)"

definition dt_sub :: "datetime \<Rightarrow> timedelta \<Rightarrow> error + datetime" where
  "dt_sub t d = dt_add t (- d)"

section \<open>The tumbling windows of one day\<close>

text \<open>
  A window is the pair the loop of \<open>_get_api_data\<close> hands to the fetch:
  \<open>window_end\<close> is the cursor before it advances (\<open>rcend_str\<close>, the chronologically
  earlier bound) and \<open>window_start\<close> is \<open>min (cursor - 1s) end_time\<close> after the advance
  (\<open>rcstart_str\<close>, the later bound).
\<close>

record window =
  window_end :: datetime
  window_start :: datetime

text \<open>The first three statements of \<open>_get_api_data\<close>: the bounds of the day.\<close>

definition day_bounds :: "date \<Rightarrow> error + (datetime \<times> datetime)" where
  "day_bounds target_date =
     (case dt_add (combine_midnight target_date) 86400 of
        Inl e \<Rightarrow> Inl e
      | Inr next_midnight \<Rightarrow>
          (case dt_sub next_midnight 1 of
             Inl e \<Rightarrow> Inl e
           | Inr end_time \<Rightarrow> Inr (combine_midnight target_date, end_time)))"

text \<open>
  The time arithmetic of one pass through the loop body: the cursor advances by the
  window size, and the window's later bound is clipped to the end of the day.
\<close>

definition next_window :: "int \<Rightarrow> datetime \<Rightarrow> datetime \<Rightarrow> error + (window \<times> datetime)" where
  "next_window W cur end_time =
     (case timedelta_seconds W of
        Inl e \<Rightarrow> Inl e
      | Inr d \<Rightarrow>
          (case dt_add cur d of
             Inl e \<Rightarrow> Inl e
           | Inr cur' \<Rightarrow>
               (case dt_sub cur' 1 of
                  Inl e \<Rightarrow> Inl e
                | Inr c1 \<Rightarrow>
                    Inr (\<lparr>window_end = cur, window_start = min c1 end_time\<rparr>, cur'))))"

text \<open>
  The planning part of the loop, with the fetch left out: the windows emitted so far
  and the error that stopped the loop, if any. With a window size of 0 the loop never
  ends, which is the value \<open>None\<close>.
\<close>

partial_function (option) plan_loop ::
  "int \<Rightarrow> datetime \<Rightarrow> datetime \<Rightarrow> window list \<Rightarrow> (window list \<times> error option) option" where
  "plan_loop W cur end_time acc =
     (if cur < end_time then
        (case next_window W cur end_time of
           Inl e \<Rightarrow> Some (acc, Some e)
         | Inr (w, cur') \<Rightarrow> plan_loop W cur' end_time (acc @ [w]))
      else Some (acc, None))"

definition plan_windows :: "int \<Rightarrow> date \<Rightarrow> (window list \<times> error option) option" where
  "plan_windows W target_date =
     (case day_bounds target_date of
        Inl e \<Rightarrow> Some ([], Some e)
      | Inr (start_time, end_time) \<Rightarrow> plan_loop W start_time end_time [])"

subsection \<open>The loop in closed form\<close>

text \<open>
  For a positive window size the loop runs \<open>niter\<close> times and its \<open>k\<close>-th pass emits
  \<open>nth_window k\<close>. These are not taken from the source: they describe its loop, and
  \<open>plan_loop_closed\<close> below proves that they do.
\<close>

definition niter :: "int \<Rightarrow> datetime \<Rightarrow> datetime \<Rightarrow> nat" where
  "niter W cur end_time = nat ((end_time - cur + W - 1) div W)"

definition nth_window :: "int \<Rightarrow> datetime \<Rightarrow> datetime \<Rightarrow> nat \<Rightarrow> window" where
  "nth_window W cur end_time k =
     \<lparr>window_end = cur + int k * W, window_start = min (cur + (int k + 1) * W - 1) end_time\<rparr>"

definition tumbling_windows :: "int \<Rightarrow> datetime \<Rightarrow> datetime \<Rightarrow> window list" where
  "tumbling_windows W s e = map (nth_window W s e) [0..<niter W s e]"


section \<open>Configuration and request parameters\<close>

text \<open>The dataclass \<open>ApiConfig\<close>; Python's integers are unbounded.\<close>

record api_config =
  base_url :: string
  limit :: int
  tumbling_window_size :: int

definition ApiConfig :: api_config where
  "ApiConfig = \<lparr>base_url = ''https://en.wikipedia.org/w/api.php'', limit = 500,
     tumbling_window_size = 30\<rparr>"

text \<open>
  \<open>strftime("%Y-%m-%dT%H:%M:%SZ")\<close> renders a datetime as text. The rendering is kept
  symbolic: \<open>Strftime t\<close> is the string of the datetime \<open>t\<close>, and two datetimes render
  alike only when they are equal.
\<close>

datatype iso_string = Strftime datetime

text \<open>The dictionary \<open>_get_api_params\<close> returns has a fixed set of keys.\<close>

record api_params =
  action :: string
  format :: string
  list_param :: string
  rcstart :: iso_string
  rcend :: iso_string
  rclimit :: int
  rcprop :: string

definition get_api_params :: "api_config \<Rightarrow> iso_string \<Rightarrow> iso_string \<Rightarrow> api_params" where
  "get_api_params cfg rcstart_arg rcend_arg =
     \<lparr>action = ''query'', format = ''json'', list_param = ''recentchanges'',
      rcstart = rcstart_arg, rcend = rcend_arg, rclimit = limit cfg,
      rcprop = ''title|timestamp|userid|user|comment|flags|sizes''\<rparr>"

section \<open>Responses and data frames\<close>

text \<open>
  An element of the list at \<open>['query']['recentchanges']\<close> of the decoded response is a
  JSON object with scalar fields (what the API documents) or a scalar: elements that are
  themselves arrays are outside this model. \<open>recentchanges\<close> is \<open>None\<close> when decoding the
  body or either key lookup raises.
\<close>

datatype cell = CNull | CBool bool | CInt int | CStr string

datatype jval = Scalar cell | Obj "(string \<times> cell) list"

record response =
  status_code :: int
  body_text :: string
  recentchanges :: "jval list option"

text \<open>
  A data frame is its column labels and its rows in index order. pandas stores the
  values of a column in the dtype it infers for the whole column (an integer in a column
  that also holds a missing value is held as a float64, for one), and \<open>pd.concat\<close>
  converts again. The stored representation is therefore not modelled: a row of the model
  names the element of the response it was built from (\<open>From_record\<close> for a row read
  from a record, \<open>From_element\<close> for a row of the positional column), and \<open>isna\<close> says
  in which columns the row reads as missing. Nothing in the model reads a stored value. A dictionary decoded from JSON keeps the last value of a
  repeated key. Labels are names, or positions for the single column pandas makes out of
  a list of scalars.
\<close>

datatype label = Name string | Pos nat

datatype frame_row = From_record "(string \<times> cell) list" | From_element jval

record frame =
  columns :: "label list"
  frame_rows :: "frame_row list"


fun is_obj :: "jval \<Rightarrow> bool" where
  "is_obj (Obj kvs) = True"
| "is_obj (Scalar c) = False"

fun keys_of :: "jval \<Rightarrow> label list" where
  "keys_of (Obj kvs) = map (\<lambda>kv. Name (fst kv)) kvs"
| "keys_of (Scalar c) = []"

fun record_row :: "jval \<Rightarrow> frame_row" where
  "record_row (Obj kvs) = From_record kvs"
| "record_row (Scalar c) = From_element (Scalar c)"

text \<open>
  \<open>pd.DataFrame(edit_records)\<close> on a list. A list that starts with a record is read as a
  list of records: one row per element, the columns being the keys in order of first
  appearance, and pandas asks every element for its keys, which raises on an element
  that is not a record. A list that starts with a scalar becomes a single positional
  column holding the elements, one row each.
\<close>

definition DataFrame :: "jval list \<Rightarrow> error + frame" where
  "DataFrame edit_records =
     (case edit_records of
        [] \<Rightarrow> Inr \<lparr>columns = [], frame_rows = []\<rparr>
      | Obj kvs # rest \<Rightarrow>
          if list_all is_obj edit_records
          then Inr \<lparr>columns = rev (remdups (rev (concat (map keys_of edit_records)))),
                    frame_rows = map record_row edit_records\<rparr>
          else Inl FrameError
      | Scalar c # rest \<Rightarrow>
          Inr \<lparr>columns = [Pos 0], frame_rows = map From_element edit_records\<rparr>)"

text \<open>\<open>_create_empty_dataframe\<close>: the thirteen columns and no row (dtypes are not modelled).\<close>

definition create_empty_dataframe :: frame where
  "create_empty_dataframe =
     \<lparr>columns = map Name [''type'', ''ns'', ''title'', ''user'', ''userid'', ''bot'',
        ''oldlen'', ''newlen'', ''timestamp'', ''comment'', ''minor'', ''anon'', ''new''],
      frame_rows = []\<rparr>"

text \<open>
  \<open>pd.concat([a, b], ignore_index=True)\<close>: the rows of \<open>a\<close>, then the rows of \<open>b\<close>,
  renumbered; the columns are the union, and a row reads as missing in a column it never had.
\<close>

definition pd_concat :: "frame \<Rightarrow> frame \<Rightarrow> frame" where
  "pd_concat a b =
     \<lparr>columns = columns a @ filter (\<lambda>c. c \<notin> set (columns a)) (columns b),
      frame_rows = frame_rows a @ frame_rows b\<rparr>"

section \<open>The pipeline object, the log and the network\<close>

datatype level = INFO | WARNING | ERROR

datatype log_msg =
    Pipeline_started
  | Current_window_start iso_string
  | Current_window_end iso_string
  | Current_param api_params
  | Request_failed_status int
  | Response_text string
  | Window_records nat
  | Total_records nat
  | Data_saved string
  | Pipeline_completed
  | Error_caught error

text \<open>
  The state of a run: the \<open>IvWikipediaData\<close> object (\<open>config\<close>, \<open>df\<close>), the lines
  written to the logger, and the requests issued so far, in order. The network is a
  function from the number of requests already issued, the URL and the parameters to the
  response; \<open>None\<close> stands for \<open>requests.get\<close> raising.
\<close>

record pipeline =
  config :: api_config
  df :: frame
  requests :: "api_params list"
  log_lines :: "(level \<times> log_msg) list"

type_synonym network = "nat \<Rightarrow> string \<Rightarrow> api_params \<Rightarrow> response option"

definition logger :: "level \<Rightarrow> log_msg \<Rightarrow> pipeline \<Rightarrow> pipeline" where
  "logger lv m s = s\<lparr>log_lines := log_lines s @ [(lv, m)]\<rparr>"

definition IvWikipediaData :: "api_config option \<Rightarrow> pipeline" where
  "IvWikipediaData cfg =
     \<lparr>config = (case cfg of None \<Rightarrow> ApiConfig | Some c \<Rightarrow> c),
      df = create_empty_dataframe, requests = [], log_lines = []\<rparr>"

text \<open>
  \<open>_fetch_tumbling_window_data(start_time, end_time)\<close>. It hands its arguments to
  \<open>_get_api_params\<close> in the opposite order.
\<close>

definition fetch_tumbling_window_data ::
  "network \<Rightarrow> iso_string \<Rightarrow> iso_string \<Rightarrow> pipeline \<Rightarrow> (error + frame) \<times> pipeline" where
  "fetch_tumbling_window_data http start_time end_time s =
     (let params = get_api_params (config s) end_time start_time;
          s1 = logger INFO (Current_param params) s;
          s2 = s1\<lparr>requests := requests s1 @ [params]\<rparr>
      in case http (length (requests s)) (base_url (config s)) params of
           None \<Rightarrow> (Inl RequestException, s2)
         | Some resp \<Rightarrow>
             if status_code resp \<noteq> 200 then
               (Inl (SystemExit (''API request failed: '' @ body_text resp)),
                logger ERROR (Response_text (body_text resp))
                  (logger ERROR (Request_failed_status (status_code resp)) s2))
             else
               (case recentchanges resp of
                  None \<Rightarrow> (Inl ParseError, s2)
                | Some edit_records \<Rightarrow>
                    (case DataFrame edit_records of
                       Inl e \<Rightarrow> (Inl e, s2)
                     | Inr window_df \<Rightarrow>
                         let s3 = logger INFO (Window_records (length (frame_rows window_df))) s2
                         in if int (length (frame_rows window_df)) = limit (config s)
                            then (Inl (SystemExit ''Error: reached max records for tumbling window''), s3)
                            else (Inr window_df, s3))))"

text \<open>One pass through the body of the \<open>while\<close> loop of \<open>_get_api_data\<close>.\<close>

definition loop_body ::
  "network \<Rightarrow> datetime \<Rightarrow> datetime \<Rightarrow> pipeline \<Rightarrow> (error + datetime) \<times> pipeline" where
  "loop_body http cur end_time s =
     (let s1 = logger INFO (Current_window_start (Strftime cur)) s
      in case next_window (tumbling_window_size (config s)) cur end_time of
           Inl e \<Rightarrow> (Inl e, s1)
         | Inr (w, cur') \<Rightarrow>
             (let s2 = logger INFO (Current_window_end (Strftime (window_start w))) s1
              in case fetch_tumbling_window_data http
                        (Strftime (window_end w)) (Strftime (window_start w)) s2 of
                   (Inl e, s3) \<Rightarrow> (Inl e, s3)
                 | (Inr window_df, s3) \<Rightarrow>
                     (let s4 = s3\<lparr>df := pd_concat (df s3) window_df\<rparr>
                      in (Inr cur',
                          logger INFO (Total_records (length (frame_rows (df s4)))) s4))))"

text \<open>The loop itself; with a window size of 0 it may never return.\<close>

partial_function (option) api_loop ::
  "network \<Rightarrow> datetime \<Rightarrow> datetime \<Rightarrow> pipeline \<Rightarrow> ((error + frame) \<times> pipeline) option" where
  "api_loop http cur end_time s =
     (if cur < end_time then
        (case loop_body http cur end_time s of
           (Inl e, s') \<Rightarrow> Some (Inl e, s')
         | (Inr cur', s') \<Rightarrow> api_loop http cur' end_time s')
      else Some (Inr (df s), s))"

text \<open>
  \<open>_get_api_data(input_date)\<close>, on the date \<open>strptime\<close> parsed out of its argument.
\<close>

definition get_api_data ::
  "network \<Rightarrow> date \<Rightarrow> pipeline \<Rightarrow> ((error + frame) \<times> pipeline) option" where
  "get_api_data http target_date s =
     (case day_bounds target_date of
        Inl e \<Rightarrow> Some (Inl e, s)
      | Inr (start_time, end_time) \<Rightarrow> api_loop http start_time end_time s)"

section \<open>The store and the run\<close>

text \<open>
  The analytical store is the schemas it has and its tables by full name; a table is the
  columns it was created with and the rows inserted into it. \<open>_save_to_duckdb\<close> connects,
  creates the schema, drops the table, creates it again and inserts the six selected
  columns of every row, as five separate steps with no transaction around them. Any of
  them can raise; \<open>fault\<close> names the step that does (\<open>None\<close> when all succeed), and the
  store keeps what the steps before it did.
\<close>

datatype db_step = Connect | Create_schema | Drop_table | Create_table | Insert_rows

record table =
  table_columns :: "string list"
  table_rows :: "frame_row list"

record store =
  schemas :: "string set"
  tables :: "string \<Rightarrow> table option"

definition save_to_duckdb ::
  "db_step option \<Rightarrow> frame \<Rightarrow> string \<Rightarrow> string \<Rightarrow> store \<Rightarrow> (error + unit) \<times> store" where
  "save_to_duckdb fault d table_name schema st =
     (let full_table_name = schema @ ''.'' @ table_name;
          selected = [''type'', ''title'', ''user'', ''userid'', ''timestamp'', ''comment''];
          st1 = st\<lparr>schemas := insert schema (schemas st)\<rparr>;
          st2 = st1\<lparr>tables := (tables st1)(full_table_name := None)\<rparr>;
          st3 = st2\<lparr>tables := (tables st2)(full_table_name \<mapsto>
                  \<lparr>table_columns = selected, table_rows = []\<rparr>)\<rparr>;
          st4 = st3\<lparr>tables := (tables st3)(full_table_name \<mapsto>
                  \<lparr>table_columns = selected, table_rows = frame_rows d\<rparr>)\<rparr>
      in if fault = Some Connect then (Inl DuckDBError, st)
         else if fault = Some Create_schema then (Inl DuckDBError, st)
         else if fault = Some Drop_table then (Inl DuckDBError, st1)
         else if fault = Some Create_table then (Inl DuckDBError, st2)
         else if fault = Some Insert_rows then (Inl DuckDBError, st3)
         else (Inr (), st4))"

text \<open>
  The body of the script: build the object, collect the day, and save only when the
  collection returned. \<open>SystemExit\<close> is not an \<open>Exception\<close> and ends the process; any
  other exception, of the collection or of the save, is caught and logged. The script
  itself runs this with a window size of 25 on 2024-10-31.
\<close>

datatype outcome = Completed | Exited string | Caught error

definition run_pipeline ::
  "network \<Rightarrow> api_config option \<Rightarrow> date \<Rightarrow> db_step option \<Rightarrow> store \<Rightarrow>
     (outcome \<times> store \<times> pipeline) option" where
  "run_pipeline http cfg input_date fault st =
     (case get_api_data http input_date (logger INFO Pipeline_started (IvWikipediaData cfg)) of
        None \<Rightarrow> None
      | Some (Inr d, s) \<Rightarrow>
          (case save_to_duckdb fault d ''wiki_edits'' ''iv'' st of
             (Inl e, st') \<Rightarrow> Some (Caught e, st', logger ERROR (Error_caught e) s)
           | (Inr u, st') \<Rightarrow>
               Some (Completed, st',
                 logger INFO Pipeline_completed (logger INFO (Data_saved ''iv.wiki_edits'') s)))
      | Some (Inl (SystemExit m), s) \<Rightarrow> Some (Exited m, st, s)
      | Some (Inl e, s) \<Rightarrow> Some (Caught e, st, logger ERROR (Error_caught e) s))"

definition main_script ::
  "network \<Rightarrow> db_step option \<Rightarrow> store \<Rightarrow> (outcome \<times> store \<times> pipeline) option" where
  "main_script http fault st =
     run_pipeline http (Some (ApiConfig\<lparr>tumbling_window_size := 25\<rparr>))
       \<lparr>year = 2024, month = 10, day = 31\<rparr> fault st"

subsection \<open>Vocabulary for the claims\<close>

text \<open>
  \<open>pass_ok\<close> relates the loop state before a pass to the state after it when the pass
  fetched and merged its window; its reflexive transitive closure is "after any number
  of successful windows". \<open>window_request\<close> is the request the loop sends for a window,
  and \<open>response_rows\<close> is the batch a response parses to.
\<close>

definition window_request :: "api_config \<Rightarrow> window \<Rightarrow> api_params" where
  "window_request cfg w = get_api_params cfg (Strftime (window_start w)) (Strftime (window_end w))"

definition pass_ok ::
  "network \<Rightarrow> datetime \<Rightarrow> datetime \<times> pipeline \<Rightarrow> datetime \<times> pipeline \<Rightarrow> bool" where
  "pass_ok http end_time a b =
     (fst a < end_time \<and> loop_body http (fst a) end_time (snd a) = (Inr (fst b), snd b))"

definition response_rows :: "response option \<Rightarrow> frame_row list" where
  "response_rows r =
     (case r of
        None \<Rightarrow> []
      | Some resp \<Rightarrow>
          (case recentchanges resp of
             None \<Rightarrow> []
           | Some edit_records \<Rightarrow>
               (case DataFrame edit_records of Inl e \<Rightarrow> [] | Inr f \<Rightarrow> frame_rows f)))"

subsection \<open>Sample networks and stores for the instances below\<close>

definition net_down :: network where
  "net_down = (\<lambda>n url p. None)"

text \<open>Every request is answered with the given status and body.\<close>

definition net_failing :: "int \<Rightarrow> string \<Rightarrow> network" where
  "net_failing code body =
     (\<lambda>n url p. Some \<lparr>status_code = code, body_text = body, recentchanges = None\<rparr>)"

text \<open>Two records; the first one has no \<open>userid\<close>.\<close>

definition net_two_rows :: network where
  "net_two_rows =
     (\<lambda>n url p. Some \<lparr>status_code = 200, body_text = [],
        recentchanges = Some [Obj [(''title'', CStr ''A'')],
                              Obj [(''title'', CStr ''B''), (''userid'', CInt 7)]]\<rparr>)"


text \<open>The first request is answered with one record, every later one with two.\<close>

definition net_by_call :: network where
  "net_by_call =
     (\<lambda>n url p. Some \<lparr>status_code = 200, body_text = [],
        recentchanges = Some (if n = 0 then [Obj [(''title'', CStr ''A'')]]
                              else [Obj [(''title'', CStr ''B'')], Obj [(''title'', CStr ''C'')]])\<rparr>)"

definition empty_store :: store where
  "empty_store = \<lparr>schemas = {}, tables = (\<lambda>t. None)\<rparr>"


section \<open>Properties of the window plan\<close>

lemma timedelta_seconds_ok:
  "0 \<le> n \<Longrightarrow> n \<le> datetime_max \<Longrightarrow> timedelta_seconds n = Inr n"
  unfolding timedelta_seconds_def datetime_max_def MAXORDINAL_def by auto

lemma next_window_ok:
  assumes "0 < W" "0 \<le> cur" "cur + W \<le> datetime_max"
  shows "next_window W cur e = Inr (\<lparr>window_end = cur, window_start = min (cur + W - 1) e\<rparr>, cur + W)"
proof -
  have "timedelta_seconds W = Inr W" using assms by (intro timedelta_seconds_ok) auto
  then show ?thesis using assms by (simp add: next_window_def dt_add_def dt_sub_def)
qed

lemma niter_zero: "0 < W \<Longrightarrow> \<not> cur < e \<Longrightarrow> niter W cur e = 0"
proof -
  assume W: "0 < W" and c: "\<not> cur < e"
  have "(e - cur + W - 1) div W \<le> (W - 1) div W"
    by (rule zdiv_mono1) (use W c in auto)
  also have "(W - 1) div W = 0" using W by (simp add: div_pos_pos_trivial)
  finally show ?thesis unfolding niter_def by simp
qed

lemma niter_Suc: 
  assumes "0 < W" "cur < e" shows "niter W cur e = Suc (niter W (cur + W) e)"
proof -
  have "(e - cur + W - 1) div W = (e - cur - 1) div W + 1"
  proof -
    have "e - cur + W - 1 = (e - cur - 1) + W" by simp
    then show ?thesis using assms by (simp only: div_add_self2) 
  qed
  moreover have "0 \<le> (e - cur - 1) div W" using assms by (simp add: pos_imp_zdiv_nonneg_iff)
  moreover have "e - (cur + W) + W - 1 = e - cur - 1" by simp
  ultimately show ?thesis unfolding niter_def by (simp add: nat_add_distrib)
qed

lemma nth_window_shift: "nth_window W cur e (Suc k) = nth_window W (cur + W) e k"
  by (simp add: nth_window_def algebra_simps)

lemma plan_loop_closed:
  assumes "0 < W"
  shows "0 \<le> cur \<Longrightarrow> cur + int (niter W cur e) * W \<le> datetime_max \<Longrightarrow>
     plan_loop W cur e acc = Some (acc @ map (nth_window W cur e) [0..<niter W cur e], None)"
proof (induction "niter W cur e" arbitrary: cur acc)
  case 0
  then have "\<not> cur < e" using niter_Suc[OF assms, of cur e] by auto
  with 0 show ?case by (subst plan_loop.simps) simp
next
  case (Suc n)
  then have lt: "cur < e" using niter_zero[OF assms, of cur e] by fastforce
  have n: "niter W cur e = Suc (niter W (cur + W) e)" by (rule niter_Suc[OF assms lt])
  with Suc.hyps have n': "n = niter W (cur + W) e" by simp
  have b: "cur + W \<le> datetime_max"
  proof -
    have "cur + W \<le> cur + int (niter W cur e) * W" using n assms by (simp add: algebra_simps)
    with Suc.prems show ?thesis by linarith
  qed
  have nw: "next_window W cur e = Inr (nth_window W cur e 0, cur + W)"
    using next_window_ok[OF assms Suc.prems(1) b] by (simp add: nth_window_def)
  have ih: "plan_loop W (cur + W) e (acc @ [nth_window W cur e 0]) =
      Some ((acc @ [nth_window W cur e 0]) @ map (nth_window W (cur + W) e) [0..<niter W (cur + W) e], None)"
  proof (rule Suc.hyps(1)[OF n'])
    show "0 \<le> cur + W" using assms Suc.prems by simp
    show "cur + W + int (niter W (cur + W) e) * W \<le> datetime_max"
      using Suc.prems(2) n by (simp add: algebra_simps)
  qed
  have "map (nth_window W cur e) [0..<niter W cur e] =
      nth_window W cur e 0 # map (nth_window W (cur + W) e) [0..<niter W (cur + W) e]"
    unfolding n by (simp add: upt_conv_Cons map_Suc_upt[symmetric] nth_window_shift del: upt_Suc)
  with ih lt nw show ?case by (subst plan_loop.simps) simp
qed

lemma month_cases:
  assumes "1 \<le> (m::int)" "m \<le> 12"
  shows "m = 1 \<or> m = 2 \<or> m = 3 \<or> m = 4 \<or> m = 5 \<or> m = 6 \<or> m = 7 \<or> m = 8 \<or> m = 9 \<or> m = 10 \<or> m = 11 \<or> m = 12"
  using assms by arith

lemma days_before_month_bounds:
  assumes "1 \<le> m" "m \<le> 12"
  shows "0 \<le> days_before_month y m \<and> days_before_month y m + days_in_month y m \<le> 366
    \<and> (\<not> is_leap y \<longrightarrow> days_before_month y m + days_in_month y m \<le> (if m = 12 then 365 else 334))"
  using month_cases[OF assms] by (auto simp: days_before_month_def days_in_month_def)

lemma days_before_year_nonneg: 
  assumes "1 \<le> y" shows "0 \<le> days_before_year y"
proof -
  have "(y - 1) div 100 \<le> (y - 1) div 4" using assms by (intro zdiv_mono2) auto
  moreover have "0 \<le> (y - 1) div 400" using assms by (simp add: pos_imp_zdiv_nonneg_iff)
  ultimately show ?thesis using assms unfolding days_before_year_def by simp
qed

lemma days_before_year_le: 
  assumes "1 \<le> y" "y \<le> 9998" shows "days_before_year y \<le> 3651329"
proof -
  have "(y - 1) div 4 \<le> 9997 div 4" using assms by (intro zdiv_mono1) auto
  moreover have "(y - 1) div 400 \<le> 9997 div 400" using assms by (intro zdiv_mono1) auto
  moreover have "0 \<le> (y - 1) div 100" using assms by (simp add: pos_imp_zdiv_nonneg_iff)
  moreover have "(y - 1) * 365 \<le> 9997 * 365" using assms by simp
  ultimately show ?thesis unfolding days_before_year_def by simp
qed

lemma ymd2ord_ge1: "valid_date d \<Longrightarrow> 1 \<le> ymd2ord d"
  using days_before_month_bounds[of "month d" "year d"] days_before_year_nonneg[of "year d"]
  by (simp add: valid_date_def ymd2ord_def)

lemma ymd2ord_lt_max:
  assumes "valid_date d" "d \<noteq> \<lparr>year = 9999, month = 12, day = 31\<rparr>"
  shows "ymd2ord d < MAXORDINAL"
proof (cases "year d \<le> 9998")
  case True
  then show ?thesis
    using assms(1) days_before_month_bounds[of "month d" "year d"] days_before_year_le[of "year d"]
    by (simp add: valid_date_def ymd2ord_def MAXORDINAL_def)
next
  case False
  with assms(1) have y: "year d = 9999" by (simp add: valid_date_def)
  have nl: "\<not> is_leap 9999" by (simp add: is_leap_def)
  have dby: "days_before_year 9999 = 3651694" by (simp add: days_before_year_def)
  show ?thesis
  proof (cases "month d = 12")
    case True
    with assms y have "day d \<noteq> 31" by (cases d) auto
    with assms(1) y True have "day d \<le> 30" by (simp add: valid_date_def days_in_month_def)
    with y True dby nl show ?thesis by (simp add: ymd2ord_def MAXORDINAL_def days_before_month_def)
  next
    case False
    then show ?thesis
      using assms(1) y nl dby days_before_month_bounds[of "month d" 9999]
      by (simp add: valid_date_def ymd2ord_def MAXORDINAL_def)
  qed
qed

lemma ymd2ord_2024_10_31: "ymd2ord \<lparr>year = 2024, month = 10, day = 31\<rparr> = 739190"
  by (simp add: ymd2ord_def days_before_year_def days_before_month_def is_leap_def)

lemma combine_midnight_range:
  assumes "1 \<le> ymd2ord d" "ymd2ord d < MAXORDINAL"
  shows "0 \<le> combine_midnight d" and "combine_midnight d + 172799 \<le> datetime_max"
proof -
  show "0 \<le> combine_midnight d" 
    using assms unfolding combine_midnight_def by simp
  have "combine_midnight d = ymd2ord d * 86400 - 86400"
    unfolding combine_midnight_def by (simp add: algebra_simps)
  moreover have "ymd2ord d * 86400 \<le> 3652058 * 86400"
    using assms unfolding MAXORDINAL_def by simp
  ultimately show "combine_midnight d + 172799 \<le> datetime_max"
    unfolding datetime_max_def MAXORDINAL_def by simp
qed

lemma day_bounds_of_range:
  assumes "0 \<le> combine_midnight d" "combine_midnight d + 172799 \<le> datetime_max"
  shows "day_bounds d = Inr (combine_midnight d, combine_midnight d + 86399)"
proof -
  have "dt_add (combine_midnight d) 86400 = Inr (combine_midnight d + 86400)"
    using assms unfolding dt_add_def by simp
  moreover have "dt_sub (combine_midnight d + 86400) 1 = Inr (combine_midnight d + 86399)"
    using assms unfolding dt_sub_def dt_add_def by simp
  ultimately show ?thesis unfolding day_bounds_def by simp
qed

lemma day_bounds_ok:
  assumes "valid_date d" "d \<noteq> \<lparr>year = 9999, month = 12, day = 31\<rparr>"
  shows "day_bounds d = Inr (combine_midnight d, combine_midnight d + 86399)"
    and "0 \<le> combine_midnight d" and "combine_midnight d + 172799 \<le> datetime_max"
proof -
  note r = combine_midnight_range[OF ymd2ord_ge1[OF assms(1)] ymd2ord_lt_max[OF assms]]
  show "day_bounds d = Inr (combine_midnight d, combine_midnight d + 86399)"
    by (rule day_bounds_of_range[OF r])
  show "0 \<le> combine_midnight d" by (rule r(1))
  show "combine_midnight d + 172799 \<le> datetime_max" by (rule r(2))
qed

lemma day_bounds_last:
  "day_bounds \<lparr>year = 9999, month = 12, day = 31\<rparr> = Inl OverflowError"
  by (simp add: day_bounds_def dt_add_def combine_midnight_def datetime_max_def MAXORDINAL_def
      ymd2ord_def days_before_year_def days_before_month_def is_leap_def)

lemma niter_mult_le:
  assumes "0 < W" "k < niter W s e"
  shows "s + int k * W < e"
proof -
  have "int k + 1 \<le> (e - s + W - 1) div W" using assms(2) unfolding niter_def by linarith
  then have "(int k + 1) * W \<le> ((e - s + W - 1) div W) * W"
    using assms(1) by (intro mult_right_mono) auto
  moreover have "e - s + W - 1 = ((e - s + W - 1) div W) * W + (e - s + W - 1) mod W" by simp
  moreover have "0 \<le> (e - s + W - 1) mod W" using assms(1) by simp
  ultimately have "(int k + 1) * W \<le> e - s + W - 1" by linarith
  then show ?thesis by (simp add: algebra_simps)
qed

lemma niter_mult_ge:
  assumes "0 < W"
  shows "e \<le> s + int (niter W s e) * W"
proof -
  have "e - s + W - 1 = W * ((e - s + W - 1) div W) + (e - s + W - 1) mod W" by simp
  moreover have "(e - s + W - 1) mod W < W" using assms by simp
  ultimately have a: "e - s - 1 < W * ((e - s + W - 1) div W)" by linarith
  have "(e - s + W - 1) div W \<le> int (niter W s e)" unfolding niter_def by simp
  then have "W * ((e - s + W - 1) div W) \<le> W * int (niter W s e)"
    using assms by (intro mult_left_mono) auto
  with a show ?thesis by (simp add: algebra_simps)
qed

lemma tw_length: "length (tumbling_windows W s e) = niter W s e"
  by (simp add: tumbling_windows_def)

lemma tw_nth: "i < niter W s e \<Longrightarrow> tumbling_windows W s e ! i = nth_window W s e i"
  by (simp add: tumbling_windows_def)

lemma tw_clip:
  assumes "0 < W" "Suc i < niter W s e"
  shows "window_start (nth_window W s e i) = s + (int i + 1) * W - 1"
  using niter_mult_le[OF assms] by (simp add: nth_window_def algebra_simps)

lemma tw_contiguous:
  assumes "0 < W" "Suc i < niter W s e"
  shows "window_end (tumbling_windows W s e ! Suc i) = window_start (tumbling_windows W s e ! i) + 1"
  using tw_clip[OF assms] assms(2) by (simp add: tw_nth) (simp add: nth_window_def algebra_simps)

lemma tw_ordered:
  assumes "0 < W" "i < niter W s e"
  shows "window_end (tumbling_windows W s e ! i) \<le> window_start (tumbling_windows W s e ! i)"
  using niter_mult_le[OF assms] assms by (simp add: tw_nth nth_window_def algebra_simps)

lemma tw_before:
  assumes "0 < W" "i < j" "j < niter W s e"
  shows "window_start (tumbling_windows W s e ! i) < window_end (tumbling_windows W s e ! j)"
proof -
  have "(int i + 1) * W \<le> int j * W" using assms by (intro mult_right_mono) auto
  then have "s + (int i + 1) * W - 1 < s + int j * W" by simp
  moreover have "window_start (nth_window W s e i) \<le> s + (int i + 1) * W - 1"
    by (simp add: nth_window_def)
  ultimately show ?thesis using assms by (simp add: tw_nth) (simp add: nth_window_def)
qed

lemma tw_width:
  assumes "0 < W" "Suc i < niter W s e"
  shows "window_start (tumbling_windows W s e ! i) - window_end (tumbling_windows W s e ! i) + 1 = W"
  using tw_clip[OF assms] assms(2) by (simp add: tw_nth) (simp add: nth_window_def algebra_simps)

lemma tw_width_le:
  assumes "i < niter W s e"
  shows "window_start (tumbling_windows W s e ! i) - window_end (tumbling_windows W s e ! i) + 1 \<le> W"
  using assms by (simp add: tw_nth) (simp add: nth_window_def algebra_simps)

lemma tw_cover:
  assumes "0 < W"
  shows "(\<Union>w\<in>set (tumbling_windows W s e). {window_end w..window_start w}) =
         {s..min (s + int (niter W s e) * W - 1) e}"
proof (intro set_eqI iffI)
  fix x
  assume "x \<in> (\<Union>w\<in>set (tumbling_windows W s e). {window_end w..window_start w})"
  then obtain i where i: "i < niter W s e"
    and x: "s + int i * W \<le> x" "x \<le> min (s + (int i + 1) * W - 1) e"
    by (auto simp: tumbling_windows_def nth_window_def)
  have "(int i + 1) * W \<le> int (niter W s e) * W" using i assms by (intro mult_right_mono) auto
  moreover have "0 \<le> int i * W" using assms by simp
  ultimately show "x \<in> {s..min (s + int (niter W s e) * W - 1) e}" using x by simp
next
  fix x
  assume "x \<in> {s..min (s + int (niter W s e) * W - 1) e}"
  then have x: "s \<le> x" "x \<le> s + int (niter W s e) * W - 1" "x \<le> e" by simp_all
  define i where "i = nat ((x - s) div W)"
  have d: "0 \<le> (x - s) div W" using x assms by (simp add: pos_imp_zdiv_nonneg_iff)
  have eq: "x - s = W * ((x - s) div W) + (x - s) mod W" by simp
  have m: "0 \<le> (x - s) mod W" "(x - s) mod W < W" using assms by simp_all
  have ii: "int i = (x - s) div W" using d unfolding i_def by simp
  have lo: "s + int i * W \<le> x"
  proof -
    have "W * ((x - s) div W) \<le> x - s" using eq m by linarith
    then show ?thesis unfolding ii by (simp add: algebra_simps)
  qed
  have hi: "x \<le> s + (int i + 1) * W - 1" 
  proof -
    have "x - s < W * ((x - s) div W) + W" using eq m by linarith
    then show ?thesis unfolding ii by (simp add: algebra_simps)
  qed
  have "i < niter W s e"
  proof (rule ccontr)
    assume "\<not> i < niter W s e"
    then have "int (niter W s e) * W \<le> int i * W" using assms by (intro mult_right_mono) auto
    with lo x(2) show False by linarith
  qed
  then have "nth_window W s e i \<in> set (tumbling_windows W s e)"
    by (simp add: tumbling_windows_def)
  moreover have "x \<in> {window_end (nth_window W s e i)..window_start (nth_window W s e i)}"
    using lo hi x(3) by (simp add: nth_window_def)
  ultimately show "x \<in> (\<Union>w\<in>set (tumbling_windows W s e). {window_end w..window_start w})"
    by blast
qed

lemma niter_big: "86399 \<le> W \<Longrightarrow> niter W s (s + 86399) = 1"
proof -
  assume W: "86399 \<le> W"
  have "(86398 + W) div W = (86398 div W) + 1" using W by (simp only: div_add_self2)
  moreover have "86398 div W = 0" using W by (simp add: div_pos_pos_trivial)
  ultimately show ?thesis by (simp add: niter_def)
qed

lemma cursor_in_range:
  assumes "0 < W" "0 \<le> s" "s + 172799 \<le> datetime_max" "W \<le> 86400 \<or> s + W \<le> datetime_max"
  shows "s + int (niter W s (s + 86399)) * W \<le> datetime_max"
proof (cases "86399 \<le> W")
  case True
  then show ?thesis using assms by (auto simp: niter_big)
next
  case False
  have "0 < niter W s (s + 86399)" using niter_Suc[OF assms(1), of s "s + 86399"] by simp
  then obtain k where k: "niter W s (s + 86399) = Suc k" by (cases "niter W s (s + 86399)") auto
  then have "s + int k * W < s + 86399" by (intro niter_mult_le[OF assms(1)]) simp
  then have "int (niter W s (s + 86399)) * W < 86399 + W" using k by (simp add: algebra_simps)
  with False assms(3) show ?thesis by linarith
qed

lemma plan_windows_ok:
  assumes "valid_date d" "d \<noteq> \<lparr>year = 9999, month = 12, day = 31\<rparr>" "0 < W"
    "W \<le> 86400 \<or> combine_midnight d + W \<le> datetime_max"
  shows "plan_windows W d =
    Some (tumbling_windows W (combine_midnight d) (combine_midnight d + 86399), None)"
proof -
  note b = day_bounds_ok[OF assms(1,2)]
  have "plan_loop W (combine_midnight d) (combine_midnight d + 86399) [] =
     Some ([] @ map (nth_window W (combine_midnight d) (combine_midnight d + 86399))
         [0..<niter W (combine_midnight d) (combine_midnight d + 86399)], None)"
    by (rule plan_loop_closed[OF assms(3) b(2) cursor_in_range[OF assms(3) b(2,3) assms(4)]])
  then show ?thesis by (simp add: plan_windows_def b(1) tumbling_windows_def)
qed

lemma plan_windows_overflow:
  assumes "valid_date d" "0 < W"
    "d = \<lparr>year = 9999, month = 12, day = 31\<rparr> \<or> \<not> (W \<le> 86400 \<or> combine_midnight d + W \<le> datetime_max)"
  shows "plan_windows W d = Some ([], Some OverflowError)"
proof (cases "d = \<lparr>year = 9999, month = 12, day = 31\<rparr>")
  case True
  then show ?thesis by (simp add: plan_windows_def day_bounds_last)
next
  case False
  note b = day_bounds_ok[OF assms(1) False]
  from False assms(3) have W: "combine_midnight d + W > datetime_max" by auto
  have "next_window W (combine_midnight d) (combine_midnight d + 86399) = Inl OverflowError"
    using W by (simp add: next_window_def timedelta_seconds_def dt_add_def)
  then show ?thesis 
    by (simp add: plan_windows_def b(1)) (subst plan_loop.simps, simp)
qed
lemma valid_2024_10_31: "valid_date \<lparr>year = 2024, month = 10, day = 31\<rparr>"
  by (simp add: valid_date_def days_in_month_def)

lemma combine_2024_10_31: "combine_midnight \<lparr>year = 2024, month = 10, day = 31\<rparr> = 63865929600"
  by (simp add: combine_midnight_def ymd2ord_2024_10_31)

subsection \<open>Claims about the plan\<close>

text \<open>
  C1 (as amended). For every valid date and every window size \<open>W > 0\<close> the planning
  loop returns, and the windows it emitted are contiguous (each window begins one second
  after the previous one ends) and pairwise disjoint. When moreover the date is not
  9999-12-31, the cursor stays a representable datetime (\<open>W \<le> 86400\<close>, or midnight plus
  \<open>W\<close> seconds is representable) and \<open>W\<close> does not divide 86399, no error stops the
  loop and the union of the inclusive ranges of the windows is exactly the day, from
  00:00:00 to 23:59:59. Nothing is said here about the cover when \<open>W\<close> divides 86399.
\<close>

theorem windows_partition_day:
  assumes "valid_date D" "0 < W"
  shows "\<exists>ws err. plan_windows W D = Some (ws, err) \<and>
    (\<forall>i. Suc i < length ws \<longrightarrow> window_end (ws ! Suc i) = window_start (ws ! i) + 1) \<and>
    (\<forall>i j. i < j \<and> j < length ws \<longrightarrow>
       {window_end (ws ! i)..window_start (ws ! i)} \<inter> {window_end (ws ! j)..window_start (ws ! j)} = {}) \<and>
    (D \<noteq> \<lparr>year = 9999, month = 12, day = 31\<rparr> \<and>
     (W \<le> 86400 \<or> combine_midnight D + W \<le> datetime_max) \<and> \<not> W dvd 86399 \<longrightarrow>
       err = None \<and>
       (\<Union>w\<in>set ws. {window_end w..window_start w}) =
         {combine_midnight D..combine_midnight D + 86399})"
proof (cases "D \<noteq> \<lparr>year = 9999, month = 12, day = 31\<rparr> \<and>
     (W \<le> 86400 \<or> combine_midnight D + W \<le> datetime_max)")
  case False
  then have "plan_windows W D = Some ([], Some OverflowError)"
    using plan_windows_overflow[OF assms] by blast
  with False show ?thesis by auto
next
  case True
  let ?s = "combine_midnight D"
  let ?ws = "tumbling_windows W ?s (?s + 86399)"
  have p: "plan_windows W D = Some (?ws, None)"
    using plan_windows_ok[OF assms(1) _ assms(2)] True by blast
  have c: "\<forall>i. Suc i < length ?ws \<longrightarrow> window_end (?ws ! Suc i) = window_start (?ws ! i) + 1"
    using tw_contiguous[OF assms(2)] by (simp add: tw_length)
  have d: "\<forall>i j. i < j \<and> j < length ?ws \<longrightarrow>
       {window_end (?ws ! i)..window_start (?ws ! i)} \<inter> {window_end (?ws ! j)..window_start (?ws ! j)} = {}"
  proof (intro allI impI)
    fix i j assume "i < j \<and> j < length ?ws"
    then have "window_start (?ws ! i) < window_end (?ws ! j)"
      using tw_before[OF assms(2), of i j ?s "?s + 86399"] by (simp add: tw_length)
    then show "{window_end (?ws ! i)..window_start (?ws ! i)} \<inter> {window_end (?ws ! j)..window_start (?ws ! j)} = {}"
      by auto
  qed
  have u: "(\<Union>w\<in>set ?ws. {window_end w..window_start w}) = {?s..?s + 86399}" if nd: "\<not> W dvd 86399"
  proof -
    have "?s + 86399 \<le> ?s + int (niter W ?s (?s + 86399)) * W" by (rule niter_mult_ge[OF assms(2)])
    moreover have "int (niter W ?s (?s + 86399)) * W \<noteq> 86399" using nd by (metis dvd_triv_right)
    ultimately have "min (?s + int (niter W ?s (?s + 86399)) * W - 1) (?s + 86399) = ?s + 86399"
      by simp
    then show ?thesis using tw_cover[OF assms(2), of ?s "?s + 86399"] by simp
  qed
  show ?thesis using p c d u by blast
qed

text \<open>The instance of C1 at 2024-10-31 with 30-second windows.\<close>

theorem windows_partition_day_witness:
  "\<exists>ws. plan_windows 30 \<lparr>year = 2024, month = 10, day = 31\<rparr> = Some (ws, None) \<and>
    (\<forall>i. Suc i < length ws \<longrightarrow> window_end (ws ! Suc i) = window_start (ws ! i) + 1) \<and>
    (\<forall>i j. i < j \<and> j < length ws \<longrightarrow>
       {window_end (ws ! i)..window_start (ws ! i)} \<inter> {window_end (ws ! j)..window_start (ws ! j)} = {}) \<and>
    (\<Union>w\<in>set ws. {window_end w..window_start w}) = {63865929600..63866015999}"
proof -
  have nd: "\<not> (30::int) dvd 86399" by simp
  have ne: "\<lparr>year = 2024, month = 10, day = 31\<rparr> \<noteq> \<lparr>year = 9999, month = 12, day = 31\<rparr>" by simp
  from windows_partition_day[OF valid_2024_10_31, of 30] nd ne
  show ?thesis by (simp add: combine_2024_10_31) 
qed

text \<open>
  C1 as stated fails: 2024-10-31 is a valid date and \<open>10^12 > 0\<close>, but advancing the
  cursor by \<open>10^12\<close> seconds leaves the datetime range, the loop stops with
  \<open>OverflowError\<close> before it emits a window, and nothing of the day is covered.
\<close>

theorem huge_window_overflows:
  "valid_date \<lparr>year = 2024, month = 10, day = 31\<rparr> \<and> (0::int) < 1000000000000 \<and>
   plan_windows 1000000000000 \<lparr>year = 2024, month = 10, day = 31\<rparr> = Some ([], Some OverflowError)"
proof -
  have "plan_windows 1000000000000 \<lparr>year = 2024, month = 10, day = 31\<rparr> = Some ([], Some OverflowError)"
    by (rule plan_windows_overflow[OF valid_2024_10_31])
       (simp_all add: combine_2024_10_31 datetime_max_def MAXORDINAL_def)
  then show ?thesis using valid_2024_10_31 by simp
qed

text \<open>
  Widths, for reference: every window but the last is exactly \<open>W\<close> seconds wide, the
  last is at most \<open>W\<close> wide, and the last window ends on the day's final second
  exactly when \<open>W\<close> does not divide 86399.
\<close>

lemma niter_day_exact:
  assumes "0 < W"
  shows "int (niter W s (s + 86399)) * W = 86399 \<longleftrightarrow> W dvd 86399"
proof
  assume "int (niter W s (s + 86399)) * W = 86399"
  then show "W dvd 86399" by (metis dvd_triv_right)
next
  assume "W dvd 86399"
  then obtain k where k: "86399 = W * k" by (auto simp: dvd_def)
  have "(W * k + (W - 1)) div W = k + (W - 1) div W" using assms by simp
  also have "(W - 1) div W = 0" using assms by (simp add: div_pos_pos_trivial)
  finally have "(86399 + W - 1) div W = k" using k by (simp add: algebra_simps)
  moreover have "0 \<le> k"
  proof -
    have "0 < W * k" using k by simp
    then have "0 < k" using assms by (rule zero_less_mult_pos)
    then show ?thesis by simp
  qed
  ultimately have "int (niter W s (s + 86399)) = k" by (simp add: niter_def)
  then show "int (niter W s (s + 86399)) * W = 86399" using k by (simp add: mult.commute)
qed

lemma window_widths:
  assumes "valid_date D" "D \<noteq> \<lparr>year = 9999, month = 12, day = 31\<rparr>" "0 < W"
    "W \<le> 86400 \<or> combine_midnight D + W \<le> datetime_max"
  shows "\<exists>ws. plan_windows W D = Some (ws, None) \<and> ws \<noteq> [] \<and>
    (\<forall>i. Suc i < length ws \<longrightarrow> window_start (ws ! i) - window_end (ws ! i) + 1 = W) \<and>
    window_start (last ws) - window_end (last ws) + 1 \<le> W \<and>
    (window_start (last ws) = combine_midnight D + 86399 \<longleftrightarrow> \<not> W dvd 86399)"
proof -
  let ?s = "combine_midnight D"
  let ?e = "?s + 86399"
  let ?ws = "tumbling_windows W ?s ?e"
  let ?n = "niter W ?s ?e"
  have p: "plan_windows W D = Some (?ws, None)" by (rule plan_windows_ok[OF assms])
  have n: "?n = Suc (niter W (?s + W) ?e)" by (rule niter_Suc[OF assms(3)]) simp
  then have ne: "?ws \<noteq> []" by (simp add: tumbling_windows_def)
  have w: "\<forall>i. Suc i < length ?ws \<longrightarrow> window_start (?ws ! i) - window_end (?ws ! i) + 1 = W"
    using tw_width[OF assms(3)] by (simp add: tw_length)
  have la: "last ?ws = nth_window W ?s ?e (?n - 1)"
    using ne n by (simp add: last_conv_nth tw_length tw_nth)
  have lw: "window_start (last ?ws) - window_end (last ?ws) + 1 \<le> W"
    using tw_width_le[of "?n - 1" W ?s ?e] ne n by (simp add: last_conv_nth tw_length)
  have ge: "86399 \<le> int ?n * W" using niter_mult_ge[OF assms(3), of ?e ?s] by simp
  have "int (?n - 1) + 1 = int ?n" using n by simp
  then have "window_start (last ?ws) = min (?s + int ?n * W - 1) ?e"
    unfolding la by (simp add: nth_window_def)
  then have "window_start (last ?ws) = ?e \<longleftrightarrow> int ?n * W \<noteq> 86399" using ge by auto
  then have "window_start (last ?ws) = ?e \<longleftrightarrow> \<not> W dvd 86399"
    using niter_day_exact[OF assms(3), of ?s] by simp
  with p ne w lw show ?thesis by blast
qed

text \<open>
  C6 at a failing input. On 2024-10-31 with 1-second windows the loop emits 86399 windows;
  the last one ends at 23:59:58, one second short of the end of the day that
  \<open>day_bounds\<close> computes, and 23:59:59 lies in no window: the loop test
  \<open>cur < end_time\<close> leaves the day's last second out whenever the cursor lands exactly
  on it, that is whenever \<open>W\<close> divides 86399.
\<close>

theorem last_second_not_fetched:
  "\<exists>ws. plan_windows 1 \<lparr>year = 2024, month = 10, day = 31\<rparr> = Some (ws, None) \<and>
     length ws = 86399 \<and>
     last ws = \<lparr>window_end = 63866015998, window_start = 63866015998\<rparr> \<and>
     day_bounds \<lparr>year = 2024, month = 10, day = 31\<rparr> = Inr (63865929600, 63866015999) \<and>
     63866015999 \<notin> (\<Union>w\<in>set ws. {window_end w..window_start w})"
proof -
  let ?d = "\<lparr>year = 2024, month = 10, day = 31\<rparr>"
  let ?ws = "tumbling_windows 1 63865929600 63866015999"
  have ne: "?d \<noteq> \<lparr>year = 9999, month = 12, day = 31\<rparr>" by simp
  have p: "plan_windows 1 ?d = Some (?ws, None)"
    using plan_windows_ok[OF valid_2024_10_31 ne, of 1] by (simp add: combine_2024_10_31)
  have n: "niter 1 63865929600 63866015999 = 86399" by (simp add: niter_def)
  have l: "length ?ws = 86399" by (simp add: tw_length n)
  have "last ?ws = ?ws ! (length ?ws - 1)" using l by (intro last_conv_nth) auto
  also have "\<dots> = nth_window 1 63865929600 63866015999 86398"
    unfolding l by (simp add: tw_nth n)
  finally have la: "last ?ws = \<lparr>window_end = 63866015998, window_start = 63866015998\<rparr>"
    by (simp add: nth_window_def)
  have b: "day_bounds ?d = Inr (63865929600, 63866015999)"
    using day_bounds_ok(1)[OF valid_2024_10_31 ne] by (simp add: combine_2024_10_31)
  have u: "63866015999 \<notin> (\<Union>w\<in>set ?ws. {window_end w..window_start w})"
    using tw_cover[of 1 63865929600 63866015999] by (simp add: n)
  show ?thesis using p l la b u by blast
qed

text \<open>
  C7. For the date 2024-10-31 and 30-second windows the planning loop emits exactly 2880
  windows, and the last one has an inclusive width of exactly 30 seconds.
\<close>

theorem plan_2024_10_31_window_30:
  "\<exists>ws. plan_windows 30 \<lparr>year = 2024, month = 10, day = 31\<rparr> = Some (ws, None) \<and>
     length ws = 2880 \<and> window_start (last ws) - window_end (last ws) + 1 = 30"
proof -
  let ?d = "\<lparr>year = 2024, month = 10, day = 31\<rparr>"
  let ?ws = "tumbling_windows 30 63865929600 63866015999"
  have ne: "?d \<noteq> \<lparr>year = 9999, month = 12, day = 31\<rparr>" by simp
  have p: "plan_windows 30 ?d = Some (?ws, None)"
    using plan_windows_ok[OF valid_2024_10_31 ne, of 30] by (simp add: combine_2024_10_31)
  have n: "niter 30 63865929600 63866015999 = 2880" by (simp add: niter_def)
  have l: "length ?ws = 2880" by (simp add: tw_length n)
  have "last ?ws = ?ws ! (length ?ws - 1)" using l by (intro last_conv_nth) auto
  also have "\<dots> = nth_window 30 63865929600 63866015999 2879"
    unfolding l by (simp add: tw_nth n)
  finally have "window_start (last ?ws) - window_end (last ?ws) + 1 = 30"
    by (simp add: nth_window_def)
  with p l show ?thesis by blast
qed

section \<open>Properties of the fetch and of the loop\<close>

lemma DataFrame_error: "DataFrame recs = Inl e \<Longrightarrow> e = FrameError"
  by (auto simp: DataFrame_def split: list.splits jval.splits if_splits)

lemma fetch_requests:
  "requests (snd (fetch_tumbling_window_data http a b s)) =
     requests s @ [get_api_params (config s) b a]"
  by (simp add: fetch_tumbling_window_data_def Let_def logger_def
      split: option.splits sum.splits)

lemma fetch_keeps:
  "config (snd (fetch_tumbling_window_data http a b s)) = config s"
  "df (snd (fetch_tumbling_window_data http a b s)) = df s"
  by (simp_all add: fetch_tumbling_window_data_def Let_def logger_def
      split: option.splits sum.splits)

lemma fetch_Inr:
  assumes "fst (fetch_tumbling_window_data http a b s) = Inr wdf"
  shows "frame_rows wdf =
      response_rows (http (length (requests s)) (base_url (config s)) (get_api_params (config s) b a))"
    and "int (length (frame_rows wdf)) \<noteq> limit (config s)"
  using assms
  by (auto simp: fetch_tumbling_window_data_def Let_def response_rows_def
      split: option.splits sum.splits if_splits)


text \<open>
  C2. A fetch fails with the saturation error exactly when the response was received
  with status 200, parsed into a batch, and the size of the batch equals the configured
  limit; a parsed batch strictly smaller than the limit is returned.
\<close>

theorem saturation_iff_batch_equals_limit:
  "(fst (fetch_tumbling_window_data http a b s) =
      Inl (SystemExit ''Error: reached max records for tumbling window'')) =
   (\<exists>resp edit_records window_df.
      http (length (requests s)) (base_url (config s)) (get_api_params (config s) b a) = Some resp \<and>
      status_code resp = 200 \<and> recentchanges resp = Some edit_records \<and>
      DataFrame edit_records = Inr window_df \<and>
      int (length (frame_rows window_df)) = limit (config s))
   \<and>
   (\<forall>resp edit_records window_df.
      http (length (requests s)) (base_url (config s)) (get_api_params (config s) b a) = Some resp \<and>
      status_code resp = 200 \<and> recentchanges resp = Some edit_records \<and>
      DataFrame edit_records = Inr window_df \<and>
      int (length (frame_rows window_df)) < limit (config s)
      \<longrightarrow> fst (fetch_tumbling_window_data http a b s) = Inr window_df)"
  by (auto simp: fetch_tumbling_window_data_def Let_def dest: DataFrame_error
      split: option.splits sum.splits if_splits)

lemma logger_fields:
  "config (logger lv m s) = config s" "df (logger lv m s) = df s"
  "requests (logger lv m s) = requests s"
  "log_lines (logger lv m s) = log_lines s @ [(lv, m)]"
  by (simp_all add: logger_def)

lemma loop_body_Inr:
  assumes "loop_body http cur e s = (Inr cur', s')"
  shows "\<exists>w wdf. next_window (tumbling_window_size (config s)) cur e = Inr (w, cur') \<and>
     requests s' = requests s @
        [get_api_params (config s) (Strftime (window_start w)) (Strftime (window_end w))] \<and>
     config s' = config s \<and> df s' = pd_concat (df s) wdf \<and>
     frame_rows wdf = response_rows (http (length (requests s)) (base_url (config s))
        (get_api_params (config s) (Strftime (window_start w)) (Strftime (window_end w)))) \<and>
     int (length (frame_rows wdf)) \<noteq> limit (config s)"
proof -
  let ?W = "tumbling_window_size (config s)"
  obtain w where nw: "next_window ?W cur e = Inr (w, cur')"
    using assms by (auto simp: loop_body_def Let_def split: sum.splits prod.splits)
  let ?s2 = "logger INFO (Current_window_end (Strftime (window_start w)))
              (logger INFO (Current_window_start (Strftime cur)) s)"
  let ?f = "fetch_tumbling_window_data http (Strftime (window_end w)) (Strftime (window_start w)) ?s2"
  obtain wdf where f: "fst ?f = Inr wdf"
    and s': "s' = logger INFO (Total_records (length (frame_rows (pd_concat (df (snd ?f)) wdf))))
                 ((snd ?f)\<lparr>df := pd_concat (df (snd ?f)) wdf\<rparr>)"
    using assms nw by (auto simp: loop_body_def Let_def split: sum.splits prod.splits)
  have r: "requests ?s2 = requests s" "config ?s2 = config s" "df ?s2 = df s"
    by (simp_all add: logger_fields)
  show ?thesis
    using nw fetch_Inr[OF f] fetch_requests[of http "Strftime (window_end w)" "Strftime (window_start w)" ?s2]
      fetch_keeps[of http "Strftime (window_end w)" "Strftime (window_start w)" ?s2]
    unfolding s' r by (intro exI[of _ w] exI[of _ wdf]) (simp add: logger_fields)
qed

lemma loop_body_fail_status:
  assumes "next_window (tumbling_window_size (config s)) cur e = Inr (w, cur')"
    and "http (length (requests s)) (base_url (config s))
          (get_api_params (config s) (Strftime (window_start w)) (Strftime (window_end w))) = Some r"
    and "status_code r \<noteq> 200"
  shows "\<exists>s'. loop_body http cur e s = (Inl (SystemExit (''API request failed: '' @ body_text r)), s') \<and>
     requests s' = requests s @
        [get_api_params (config s) (Strftime (window_start w)) (Strftime (window_end w))] \<and>
     df s' = df s \<and>
     (ERROR, Request_failed_status (status_code r)) \<in> set (log_lines s') \<and>
     (ERROR, Response_text (body_text r)) \<in> set (log_lines s')"
  using assms
  by (simp add: loop_body_def Let_def fetch_tumbling_window_data_def logger_fields)

lemma api_loop_pass:
  assumes "pass_ok http e a b"
  shows "api_loop http (fst a) e (snd a) = api_loop http (fst b) e (snd b)"
  using assms unfolding pass_ok_def by (subst api_loop.simps) simp

lemma api_loop_reach:
  assumes "(pass_ok http e)\<^sup>*\<^sup>* a b"
  shows "api_loop http (fst a) e (snd a) = api_loop http (fst b) e (snd b)"
  using assms by (induction rule: rtranclp_induct) (auto dest: api_loop_pass)

lemma pass_ok_facts:
  assumes "pass_ok http e a b"
  shows "config (snd b) = config (snd a)"
    and "\<exists>p. requests (snd b) = requests (snd a) @ [p]"
    and "frame_rows (df (snd b)) = frame_rows (df (snd a)) @
      response_rows (http (length (requests (snd a))) (base_url (config (snd a)))
         (requests (snd b) ! length (requests (snd a))))"
    and "int (length (frame_rows (df (snd b)))) \<noteq>
           int (length (frame_rows (df (snd a)))) + limit (config (snd a))"
proof -
  from assms have "loop_body http (fst a) e (snd a) = (Inr (fst b), snd b)"
    by (simp add: pass_ok_def)
  note h = loop_body_Inr[OF this]
  show "config (snd b) = config (snd a)" using h by auto
  show "\<exists>p. requests (snd b) = requests (snd a) @ [p]" using h by auto
  show "frame_rows (df (snd b)) = frame_rows (df (snd a)) @
      response_rows (http (length (requests (snd a))) (base_url (config (snd a)))
         (requests (snd b) ! length (requests (snd a))))"
    using h by (auto simp: pd_concat_def)
  show "int (length (frame_rows (df (snd b)))) \<noteq>
           int (length (frame_rows (df (snd a)))) + limit (config (snd a))"
    using h by (auto simp: pd_concat_def)
qed

lemma next_window_shape:
  assumes "next_window W cur e = Inr (w, cur')"
  shows "cur' = cur + W" and "w = \<lparr>window_end = cur, window_start = min (cur + W - 1) e\<rparr>"
  using assms
  by (auto simp: next_window_def timedelta_seconds_def dt_add_def dt_sub_def
      split: if_splits sum.splits)

lemma loop_body_requests:
  assumes "next_window (tumbling_window_size (config s)) cur e = Inr (w, cur')"
  shows "requests (snd (loop_body http cur e s)) = requests s @
     [get_api_params (config s) (Strftime (window_start w)) (Strftime (window_end w))]"
proof -
  let ?s2 = "logger INFO (Current_window_end (Strftime (window_start w)))
              (logger INFO (Current_window_start (Strftime cur)) s)"
  let ?f = "fetch_tumbling_window_data http (Strftime (window_end w)) (Strftime (window_start w)) ?s2"
  have "requests (snd ?f) = requests s @
     [get_api_params (config s) (Strftime (window_start w)) (Strftime (window_end w))]"
    by (simp add: fetch_requests logger_fields)
  then show ?thesis using assms
    by (cases ?f; cases "fst ?f") (auto simp: loop_body_def Let_def logger_fields)
qed

text \<open>
  C3 (as amended). In every pass of the loop, the request sent for the window has
  \<open>rcstart\<close> the window's \<open>window_start\<close> bound (the cursor after the advance less one
  second, clipped to the end of the day), \<open>rcend\<close> its \<open>window_end\<close> bound (the cursor
  before the advance), \<open>rclimit\<close> the configured limit and \<open>rcprop\<close> the fixed property
  list: the loop passes (\<open>window_end\<close>, \<open>window_start\<close>) to the fetch, and the fetch
  passes them on swapped. With a positive window size \<open>rcstart\<close> is the chronologically
  later of the two and \<open>rcend\<close> the earlier; with a window size of 0 or less it is the
  other way round.
\<close>

theorem request_parameters_of_window:
  assumes "next_window (tumbling_window_size (config s)) cur end_time = Inr (w, cur')"
  shows "\<exists>p. requests (snd (loop_body http cur end_time s)) = requests s @ [p] \<and>
     rcstart p = Strftime (window_start w) \<and> rcend p = Strftime (window_end w) \<and>
     rclimit p = limit (config s) \<and>
     rcprop p = ''title|timestamp|userid|user|comment|flags|sizes'' \<and>
     action p = ''query'' \<and> format p = ''json'' \<and> list_param p = ''recentchanges'' \<and>
     (0 < tumbling_window_size (config s) \<and> cur < end_time \<longrightarrow>
        window_end w \<le> window_start w) \<and>
     (tumbling_window_size (config s) \<le> 0 \<longrightarrow> window_start w < window_end w)"
proof -
  have "0 < tumbling_window_size (config s) \<and> cur < end_time \<longrightarrow>
        window_end w \<le> window_start w"
    using next_window_shape(2)[OF assms] by simp
  moreover have "tumbling_window_size (config s) \<le> 0 \<longrightarrow> window_start w < window_end w"
    using next_window_shape(2)[OF assms] by (simp add: min_def)
  ultimately show ?thesis
    using loop_body_requests[OF assms, of http] by (simp add: get_api_params_def)
qed

lemma next_window_2024_30:
  "next_window 30 63865929600 63866015999 =
     Inr (\<lparr>window_end = 63865929600, window_start = 63865929629\<rparr>, 63865929630)"
  by (simp add: next_window_def timedelta_seconds_def dt_add_def dt_sub_def
      datetime_max_def MAXORDINAL_def)

lemma default_config: "config (IvWikipediaData None) = ApiConfig"
  "tumbling_window_size ApiConfig = 30" "limit ApiConfig = 500"
  "requests (IvWikipediaData cfg) = []" "df (IvWikipediaData cfg) = create_empty_dataframe"
  by (simp_all add: IvWikipediaData_def ApiConfig_def)

text \<open>The instance of C3 at the first window of 2024-10-31 under the default configuration.\<close>

theorem request_parameters_of_window_witness:
  "\<exists>p. requests (snd (loop_body net_down 63865929600 63866015999 (IvWikipediaData None))) = [p] \<and>
     rcstart p = Strftime 63865929629 \<and> rcend p = Strftime 63865929600 \<and>
     rclimit p = 500 \<and> rcprop p = ''title|timestamp|userid|user|comment|flags|sizes'' \<and>
     (63865929600::int) \<le> 63865929629"
proof -
  have c: "next_window (tumbling_window_size (config (IvWikipediaData None))) 63865929600 63866015999 =
     Inr (\<lparr>window_end = 63865929600, window_start = 63865929629\<rparr>, 63865929630)"
    by (simp add: default_config next_window_2024_30)
  from request_parameters_of_window[OF c, of net_down]
  show ?thesis by (auto simp: default_config)
qed

lemma day_bounds_2024_10_31:
  "day_bounds \<lparr>year = 2024, month = 10, day = 31\<rparr> = Inr (63865929600, 63866015999)"
proof -
  have ne: "\<lparr>year = 2024, month = 10, day = 31\<rparr> \<noteq> \<lparr>year = 9999, month = 12, day = 31\<rparr>" by simp
  show ?thesis
    using day_bounds_ok(1)[OF valid_2024_10_31 ne] by (simp add: combine_2024_10_31)
qed

lemma run_of_failed_collection:
  assumes "get_api_data http D (logger INFO Pipeline_started (IvWikipediaData cfg)) = Some (Inl e, s1)"
  shows "\<exists>out s2. run_pipeline http cfg D fault st = Some (out, st, s2) \<and> out \<noteq> Completed \<and>
     requests s2 = requests s1 \<and> df s2 = df s1 \<and>
     (\<forall>m. (WARNING, m) \<in> set (log_lines s2) \<longleftrightarrow> (WARNING, m) \<in> set (log_lines s1)) \<and>
     (\<forall>m. e = SystemExit m \<longrightarrow> out = Exited m \<and> s2 = s1) \<and>
     ((\<forall>m. e \<noteq> SystemExit m) \<longrightarrow> out = Caught e)"
  using assms by (cases e) (simp_all add: run_pipeline_def logger_fields)

lemma collection_fails_at:
  assumes "day_bounds D = Inr (start_time, end_time)"
    and "(pass_ok http end_time)\<^sup>*\<^sup>* (start_time, s0) (cur, s)"
    and "cur < end_time"
    and "loop_body http cur end_time s = (Inl e, s')"
  shows "get_api_data http D s0 = Some (Inl e, s')"
proof -
  have "api_loop http start_time end_time s0 = api_loop http cur end_time s"
    using api_loop_reach[OF assms(2)] by simp
  also have "\<dots> = Some (Inl e, s')"
    using assms(3,4) by (subst api_loop.simps) simp
  finally show ?thesis by (simp add: get_api_data_def assms(1))
qed

text \<open>
  C4 (as amended). Let the run have fetched and merged any number of windows, and let
  the request of the next window be answered with a status other than 200. Then the run
  returns, ending with \<open>SystemExit\<close> whose message carries the response body and not the
  status code; the status code and the body were logged as errors before the raise; the
  failing request is the last one sent; and the store is the one the run started with.
  More generally, whenever the collection ends with an error the run does not complete
  and returns the store it started with, whatever the store would have done.
\<close>

theorem request_failure_aborts_run:
  assumes "day_bounds D = Inr (start_time, end_time)"
    and "(pass_ok http end_time)\<^sup>*\<^sup>*
           (start_time, logger INFO Pipeline_started (IvWikipediaData cfg)) (cur, s)"
    and "cur < end_time"
    and "next_window (tumbling_window_size (config s)) cur end_time = Inr (w, cur')"
    and "http (length (requests s)) (base_url (config s))
          (get_api_params (config s) (Strftime (window_start w)) (Strftime (window_end w))) = Some r"
    and "status_code r \<noteq> 200"
  shows "(\<exists>s'. run_pipeline http cfg D fault st =
            Some (Exited (''API request failed: '' @ body_text r), st, s') \<and>
     requests s' = requests s @
        [get_api_params (config s) (Strftime (window_start w)) (Strftime (window_end w))] \<and>
     df s' = df s \<and>
     (ERROR, Request_failed_status (status_code r)) \<in> set (log_lines s') \<and>
     (ERROR, Response_text (body_text r)) \<in> set (log_lines s')) \<and>
    (\<forall>e s1. get_api_data http D (logger INFO Pipeline_started (IvWikipediaData cfg)) = Some (Inl e, s1)
           \<longrightarrow> (\<exists>out s2. run_pipeline http cfg D fault st = Some (out, st, s2) \<and> out \<noteq> Completed))"
proof (rule conjI)
  show "\<forall>e s1. get_api_data http D (logger INFO Pipeline_started (IvWikipediaData cfg)) = Some (Inl e, s1)
           \<longrightarrow> (\<exists>out s2. run_pipeline http cfg D fault st = Some (out, st, s2) \<and> out \<noteq> Completed)"
    using run_of_failed_collection[of http D cfg _ _ fault st] by blast
  let ?s0 = "logger INFO Pipeline_started (IvWikipediaData cfg)"
  from loop_body_fail_status[where http=http and s=s and w=w and r=r and cur=cur and e=end_time, OF assms(4,5,6)] obtain s' where
    lb: "loop_body http cur end_time s =
          (Inl (SystemExit (''API request failed: '' @ body_text r)), s')"
    and rest: "requests s' = requests s @
        [get_api_params (config s) (Strftime (window_start w)) (Strftime (window_end w))]"
      "df s' = df s"
      "(ERROR, Request_failed_status (status_code r)) \<in> set (log_lines s')"
      "(ERROR, Response_text (body_text r)) \<in> set (log_lines s')"
    by auto
  have "get_api_data http D ?s0 =
      Some (Inl (SystemExit (''API request failed: '' @ body_text r)), s')"
    by (rule collection_fails_at[OF assms(1,2,3) lb])
  then have "run_pipeline http cfg D fault st =
      Some (Exited (''API request failed: '' @ body_text r), st, s')"
    by (simp add: run_pipeline_def)
  with rest show "\<exists>s'. run_pipeline http cfg D fault st =
            Some (Exited (''API request failed: '' @ body_text r), st, s') \<and>
     requests s' = requests s @
        [get_api_params (config s) (Strftime (window_start w)) (Strftime (window_end w))] \<and>
     df s' = df s \<and>
     (ERROR, Request_failed_status (status_code r)) \<in> set (log_lines s') \<and>
     (ERROR, Response_text (body_text r)) \<in> set (log_lines s')" by blast
qed

text \<open>
  The instance of C4 where the first request of 2024-10-31 is answered with 503, with a
  store whose insert would have failed.
\<close>

theorem request_failure_aborts_run_witness:
  "\<exists>s'. run_pipeline (net_failing 503 ''Service Unavailable'') None
            \<lparr>year = 2024, month = 10, day = 31\<rparr> (Some Insert_rows) empty_store =
            Some (Exited ''API request failed: Service Unavailable'', empty_store, s') \<and>
     length (requests s') = 1 \<and> df s' = create_empty_dataframe \<and>
     (ERROR, Request_failed_status 503) \<in> set (log_lines s')"
proof -
  let ?s0 = "logger INFO Pipeline_started (IvWikipediaData None)"
  let ?net = "net_failing 503 ''Service Unavailable''"
  have a: "(pass_ok ?net 63866015999)\<^sup>*\<^sup>* (63865929600, ?s0) (63865929600, ?s0)"
    by simp
  have b: "(63865929600::int) < 63866015999" by simp
  have c: "next_window (tumbling_window_size (config ?s0)) 63865929600 63866015999 =
     Inr (\<lparr>window_end = 63865929600, window_start = 63865929629\<rparr>, 63865929630)"
    by (simp add: default_config logger_fields next_window_2024_30)
  let ?r = "\<lparr>status_code = 503, body_text = ''Service Unavailable'', recentchanges = None\<rparr>"
  have d: "?net (length (requests ?s0)) (base_url (config ?s0))
      (get_api_params (config ?s0)
         (Strftime (window_start \<lparr>window_end = 63865929600, window_start = 63865929629\<rparr>))
         (Strftime (window_end \<lparr>window_end = 63865929600, window_start = 63865929629\<rparr>))) = Some ?r"
    by (simp add: net_failing_def)
  have e: "status_code ?r \<noteq> 200" by simp
  from request_failure_aborts_run[OF day_bounds_2024_10_31 a b c d e,
      where st=empty_store and fault="Some Insert_rows", THEN conjunct1]
  show ?thesis by (auto simp: default_config logger_fields)
qed

text \<open>
  C4 as stated fails: the error the run ends with does not carry the status. A first
  request answered with 503 and one answered with 404, with the same body, end the run
  with the same error.
\<close>

theorem status_code_not_in_error:
  "map_option fst (run_pipeline (net_failing 503 ''unavailable'') None
      \<lparr>year = 2024, month = 10, day = 31\<rparr> None empty_store) =
     Some (Exited ''API request failed: unavailable'') \<and>
   map_option fst (run_pipeline (net_failing 404 ''unavailable'') None
      \<lparr>year = 2024, month = 10, day = 31\<rparr> None empty_store) =
     Some (Exited ''API request failed: unavailable'')"
proof -
  have "map_option fst (run_pipeline (net_failing code ''unavailable'') None
      \<lparr>year = 2024, month = 10, day = 31\<rparr> None empty_store) =
     Some (Exited ''API request failed: unavailable'')" if code: "code \<noteq> 200" for code
  proof -
    let ?s0 = "logger INFO Pipeline_started (IvWikipediaData None)"
    let ?net = "net_failing code ''unavailable''"
    let ?r = "\<lparr>status_code = code, body_text = ''unavailable'', recentchanges = None\<rparr>"
    have c: "next_window (tumbling_window_size (config ?s0)) 63865929600 63866015999 =
       Inr (\<lparr>window_end = 63865929600, window_start = 63865929629\<rparr>, 63865929630)"
      by (simp add: default_config logger_fields next_window_2024_30)
    have d: "?net (length (requests ?s0)) (base_url (config ?s0))
        (get_api_params (config ?s0)
           (Strftime (window_start \<lparr>window_end = 63865929600, window_start = 63865929629\<rparr>))
           (Strftime (window_end \<lparr>window_end = 63865929600, window_start = 63865929629\<rparr>))) = Some ?r"
      by (simp add: net_failing_def)
    have e: "status_code ?r \<noteq> 200" using code by simp
    from loop_body_fail_status[where http="?net" and s="?s0" and r="?r" and cur=63865929600
        and e=63866015999, OF c d e]
    obtain s' where lb: "loop_body ?net 63865929600 63866015999 ?s0 =
          (Inl (SystemExit (''API request failed: '' @ body_text ?r)), s')" by blast
    have "get_api_data ?net \<lparr>year = 2024, month = 10, day = 31\<rparr> ?s0 =
        Some (Inl (SystemExit (''API request failed: '' @ body_text ?r)), s')"
      by (rule collection_fails_at[OF day_bounds_2024_10_31 _ _ lb]) simp_all
    then show ?thesis by (simp add: run_pipeline_def)
  qed
  from this[of 503] this[of 404] show ?thesis by simp
qed

text \<open>
  C5 (as amended). The constructor keeps whatever configuration it is given: nothing
  rejects a window size. With a positive window size no window the loop builds has its
  earlier bound after its later bound; with a window size of 0 or less every window it
  builds does.
\<close>

theorem window_size_not_validated:
  "config (IvWikipediaData (Some c)) = c \<and>
   (0 < W \<and> cur < e \<and> next_window W cur e = Inr (w, cur') \<longrightarrow> window_end w \<le> window_start w) \<and>
   (W \<le> 0 \<and> next_window W cur e = Inr (w, cur') \<longrightarrow> window_start w < window_end w)"
proof (intro conjI impI)
  show "config (IvWikipediaData (Some c)) = c" by (simp add: IvWikipediaData_def)
next
  assume "0 < W \<and> cur < e \<and> next_window W cur e = Inr (w, cur')"
  then show "window_end w \<le> window_start w" using next_window_shape(2)[of W cur e w cur'] by simp
next
  assume "W \<le> 0 \<and> next_window W cur e = Inr (w, cur')"
  then show "window_start w < window_end w" using next_window_shape(2)[of W cur e w cur']
    by (simp add: min_def)
qed

lemma next_window_2024_0:
  "next_window 0 63865929600 63866015999 =
     Inr (\<lparr>window_end = 63865929600, window_start = 63865929599\<rparr>, 63865929600)"
  by (simp add: next_window_def timedelta_seconds_def dt_add_def dt_sub_def
      datetime_max_def MAXORDINAL_def)

text \<open>The instances of C5 at 2024-10-31 with window sizes 30 and 0.\<close>

theorem window_size_not_validated_witness:
  "config (IvWikipediaData (Some ApiConfig)) = ApiConfig \<and>
   window_end \<lparr>window_end = 63865929600, window_start = 63865929629\<rparr>
     \<le> window_start \<lparr>window_end = 63865929600, window_start = 63865929629\<rparr> \<and>
   window_start \<lparr>window_end = 63865929600, window_start = 63865929599\<rparr>
     < window_end \<lparr>window_end = 63865929600, window_start = 63865929599\<rparr>"
  using window_size_not_validated[of ApiConfig 30 63865929600 63866015999
      "\<lparr>window_end = 63865929600, window_start = 63865929629\<rparr>" 63865929630]
    window_size_not_validated[of ApiConfig 0 63865929600 63866015999
      "\<lparr>window_end = 63865929600, window_start = 63865929599\<rparr>" 63865929600]
    next_window_2024_30 next_window_2024_0
  by simp

text \<open>
  C5 as stated fails: a configuration with window size 0 is accepted, and the collection
  for 2024-10-31 then builds the window from 00:00:00 back to 23:59:59 of the day before
  and sends its request (here the network is down, which ends the run).
\<close>

theorem zero_window_size_accepted:
  "config (IvWikipediaData (Some (ApiConfig\<lparr>tumbling_window_size := 0\<rparr>))) =
     ApiConfig\<lparr>tumbling_window_size := 0\<rparr> \<and>
   get_api_data net_down \<lparr>year = 2024, month = 10, day = 31\<rparr>
       (IvWikipediaData (Some (ApiConfig\<lparr>tumbling_window_size := 0\<rparr>))) =
     Some (Inl RequestException,
       (IvWikipediaData (Some (ApiConfig\<lparr>tumbling_window_size := 0\<rparr>)))
         \<lparr>requests := [get_api_params (ApiConfig\<lparr>tumbling_window_size := 0\<rparr>)
                          (Strftime 63865929599) (Strftime 63865929600)],
          log_lines := [(INFO, Current_window_start (Strftime 63865929600)),
                        (INFO, Current_window_end (Strftime 63865929599)),
                        (INFO, Current_param (get_api_params (ApiConfig\<lparr>tumbling_window_size := 0\<rparr>)
                          (Strftime 63865929599) (Strftime 63865929600)))]\<rparr>)"
proof -
  let ?c = "ApiConfig\<lparr>tumbling_window_size := 0\<rparr>"
  have c: "config (IvWikipediaData (Some ?c)) = ?c" by (simp add: IvWikipediaData_def)
  have lb: "loop_body net_down 63865929600 63866015999 (IvWikipediaData (Some ?c)) =
     (Inl RequestException,
       (IvWikipediaData (Some ?c))
         \<lparr>requests := [get_api_params ?c (Strftime 63865929599) (Strftime 63865929600)],
          log_lines := [(INFO, Current_window_start (Strftime 63865929600)),
                        (INFO, Current_window_end (Strftime 63865929599)),
                        (INFO, Current_param (get_api_params ?c
                          (Strftime 63865929599) (Strftime 63865929600)))]\<rparr>)"
    by (simp add: loop_body_def Let_def c logger_fields next_window_2024_0
        fetch_tumbling_window_data_def net_down_def)
       (simp add: logger_def IvWikipediaData_def)
  show ?thesis
    by (simp add: c get_api_data_def day_bounds_2024_10_31)
       (subst api_loop.simps, simp add: lb)
qed

text \<open>
  C3 as stated fails: under a window size of 0, which nothing rejects, the request of the
  first window of 2024-10-31 has \<open>rcstart\<close> 23:59:59 of the day before and \<open>rcend\<close>
  00:00:00 of the day, so \<open>rcstart\<close> is the earlier instant and \<open>rcend\<close> the later.
\<close>

theorem reversed_bounds_at_zero_window_size:
  "map rcstart (requests (snd (loop_body net_down 63865929600 63866015999
       (IvWikipediaData (Some (ApiConfig\<lparr>tumbling_window_size := 0\<rparr>)))))) =
     [Strftime 63865929599] \<and>
   map rcend (requests (snd (loop_body net_down 63865929600 63866015999
       (IvWikipediaData (Some (ApiConfig\<lparr>tumbling_window_size := 0\<rparr>)))))) =
     [Strftime 63865929600]"
proof -
  let ?c = "ApiConfig\<lparr>tumbling_window_size := 0\<rparr>"
  have c: "config (IvWikipediaData (Some ?c)) = ?c" by (simp add: IvWikipediaData_def)
  have n: "next_window (tumbling_window_size (config (IvWikipediaData (Some ?c))))
       63865929600 63866015999 =
     Inr (\<lparr>window_end = 63865929600, window_start = 63865929599\<rparr>, 63865929600)"
    by (simp add: c next_window_2024_0)
  show ?thesis
    by (simp add: loop_body_requests[OF n] default_config get_api_params_def)
qed

section \<open>The accumulated table\<close>

lemma DataFrame_two_rows:
  "\<exists>f. DataFrame [Obj [(''title'', CStr ''A'')], Obj [(''title'', CStr ''B''), (''userid'', CInt 7)]] = Inr f
     \<and> length (frame_rows f) = 2"
  by (simp add: DataFrame_def)

text \<open>
  The instances of C2 on a response of two records: saturated under a limit of 2,
  returned under the default limit of 500.
\<close>

theorem saturation_iff_batch_equals_limit_witness:
  "fst (fetch_tumbling_window_data net_two_rows (Strftime 63865929600) (Strftime 63865929629)
         (IvWikipediaData (Some (ApiConfig\<lparr>limit := 2\<rparr>)))) =
     Inl (SystemExit ''Error: reached max records for tumbling window'') \<and>
   (\<exists>window_df.
      fst (fetch_tumbling_window_data net_two_rows (Strftime 63865929600) (Strftime 63865929629)
         (IvWikipediaData None)) = Inr window_df \<and> length (frame_rows window_df) = 2)"
proof -
  obtain f where f: "DataFrame [Obj [(''title'', CStr ''A'')], Obj [(''title'', CStr ''B''), (''userid'', CInt 7)]] = Inr f"
    "length (frame_rows f) = 2" using DataFrame_two_rows by blast
  let ?r = "\<lparr>status_code = 200, body_text = [],
        recentchanges = Some [Obj [(''title'', CStr ''A'')],
                              Obj [(''title'', CStr ''B''), (''userid'', CInt 7)]]\<rparr>"
  have n: "\<And>n u p. net_two_rows n u p = Some ?r" by (simp add: net_two_rows_def)
  have c2: "limit (config (IvWikipediaData (Some (ApiConfig\<lparr>limit := 2\<rparr>)))) = 2"
    by (simp add: IvWikipediaData_def)
  have c500: "limit (config (IvWikipediaData None)) = 500"
    by (simp add: IvWikipediaData_def ApiConfig_def)
  have a: "fst (fetch_tumbling_window_data net_two_rows (Strftime 63865929600) (Strftime 63865929629)
         (IvWikipediaData (Some (ApiConfig\<lparr>limit := 2\<rparr>)))) =
     Inl (SystemExit ''Error: reached max records for tumbling window'')"
    using saturation_iff_batch_equals_limit[of net_two_rows "Strftime 63865929600"
        "Strftime 63865929629" "IvWikipediaData (Some (ApiConfig\<lparr>limit := 2\<rparr>))"] n f c2
    by auto
  have b: "fst (fetch_tumbling_window_data net_two_rows (Strftime 63865929600) (Strftime 63865929629)
         (IvWikipediaData None)) = Inr f"
    using saturation_iff_batch_equals_limit[of net_two_rows "Strftime 63865929600"
        "Strftime 63865929629" "IvWikipediaData None"] n f c500
    by auto
  show ?thesis using a b f(2) by blast
qed

lemma api_loop_returns:
  assumes "0 < tumbling_window_size (config s)"
  shows "\<exists>r. api_loop http cur e s = Some r"
  using assms
proof (induction "nat (e - cur)" arbitrary: cur s rule: less_induct)
  case less
  show ?case
  proof (cases "cur < e")
    case False
    then show ?thesis by (subst api_loop.simps) simp
  next
    case True
    obtain r s' where lb: "loop_body http cur e s = (r, s')" by (cases "loop_body http cur e s")
    show ?thesis
    proof (cases r)
      case (Inl err)
      then show ?thesis using True lb by (subst api_loop.simps) simp
    next
      case (Inr cur')
      from loop_body_Inr[OF lb[unfolded Inr]] obtain w where
        w: "next_window (tumbling_window_size (config s)) cur e = Inr (w, cur')"
        and c: "config s' = config s" by blast
      have "cur' = cur + tumbling_window_size (config s)" by (rule next_window_shape(1)[OF w])
      then have "nat (e - cur') < nat (e - cur)" using less.prems True by simp
      moreover have "0 < tumbling_window_size (config s')" using c less.prems by simp
      ultimately obtain r' where "api_loop http cur' e s' = Some r'"
        using less.hyps[of cur' s'] by blast
      then show ?thesis using True lb Inr by (subst api_loop.simps) simp
    qed
  qed
qed

lemma api_loop_success_reach:
  assumes "api_loop http cur e s = Some (Inr d, s')"
  shows "\<exists>cur'. (pass_ok http e)\<^sup>*\<^sup>* (cur, s) (cur', s') \<and> \<not> cur' < e \<and> d = df s'"
proof -
  define P where "P = (\<lambda>http cur e s (y :: (error + frame) \<times> pipeline). \<forall>d s'. y = (Inr d, s') \<longrightarrow>
     (\<exists>cur'. (pass_ok http e)\<^sup>*\<^sup>* (cur, s) (cur', s') \<and> \<not> cur' < e \<and> d = df s'))"
  have "P http cur e s (Inr d, s')"
  proof (rule api_loop.raw_induct[where P=P, OF _ assms])
    fix loop' :: "network \<Rightarrow> datetime \<Rightarrow> datetime \<Rightarrow> pipeline \<Rightarrow> ((error + frame) \<times> pipeline) option"
    fix http cur e s y
    assume IH: "\<And>h c e' t z. loop' h c e' t = Some z \<Longrightarrow> P h c e' t z"
      and eq: "(if cur < e
         then case loop_body http cur e s of
              (Inl err, s') \<Rightarrow> Some (Inl err, s')
            | (Inr cur', s') \<Rightarrow> loop' http cur' e s'
         else Some (Inr (df s), s)) = Some y"
    show "P http cur e s y"
    proof (cases "cur < e")
      case False
      with eq show ?thesis by (auto simp: P_def)
    next
      case True
      obtain r s1 where lb: "loop_body http cur e s = (r, s1)" by (cases "loop_body http cur e s")
      show ?thesis
      proof (cases r)
        case (Inl err)
        with eq True lb show ?thesis by (auto simp: P_def)
      next
        case (Inr c1)
        with eq True lb have "loop' http c1 e s1 = Some y" by simp
        from IH[OF this] have ih: "P http c1 e s1 y" .
        have p: "pass_ok http e (cur, s) (c1, s1)" using True lb Inr by (simp add: pass_ok_def)
        show ?thesis unfolding P_def
        proof (intro allI impI)
          fix d s' assume "y = (Inr d, s')"
          with ih[unfolded P_def] obtain cur' where "(pass_ok http e)\<^sup>*\<^sup>* (c1, s1) (cur', s')" "\<not> cur' < e" "d = df s'"
            by blast
          with p show "\<exists>cur'. (pass_ok http e)\<^sup>*\<^sup>* (cur, s) (cur', s') \<and> \<not> cur' < e \<and> d = df s'"
            by (meson converse_rtranclp_into_rtranclp)
        qed
      qed
    qed
  qed
  then show ?thesis unfolding P_def by blast
qed



lemma DataFrame_records:
  "list_all is_obj recs \<Longrightarrow> \<exists>f. DataFrame recs = Inr f \<and> frame_rows f = map record_row recs"
  by (auto simp: DataFrame_def split: list.splits jval.splits)





lemma loop_body_success:
  assumes "next_window (tumbling_window_size (config s)) cur e = Inr (w, cur')"
    and "http (length (requests s)) (base_url (config s))
          (get_api_params (config s) (Strftime (window_start w)) (Strftime (window_end w))) = Some resp"
    and "status_code resp = 200" "recentchanges resp = Some recs" "DataFrame recs = Inr f"
    and "int (length (frame_rows f)) \<noteq> limit (config s)"
  shows "\<exists>s'. loop_body http cur e s = (Inr cur', s') \<and> df s' = pd_concat (df s) f"
  using assms
  by (simp add: loop_body_def Let_def fetch_tumbling_window_data_def logger_fields)



lemma relpow_plan:
  assumes "(pass_ok http e ^^ n) a b"
  shows "\<exists>ws. length ws = n \<and>
    (\<forall>acc. plan_loop (tumbling_window_size (config (snd a))) (fst a) e acc =
           plan_loop (tumbling_window_size (config (snd a))) (fst b) e (acc @ ws)) \<and>
    requests (snd b) = requests (snd a) @ map (window_request (config (snd a))) ws \<and>
    config (snd b) = config (snd a) \<and>
    frame_rows (df (snd b)) = frame_rows (df (snd a)) @
      concat (map (\<lambda>i. response_rows (http (length (requests (snd a)) + i)
                 (base_url (config (snd a))) (window_request (config (snd a)) (ws ! i))))
        [0..<n])"
  using assms
proof (induction n arbitrary: b)
  case 0
  then show ?case by simp
next
  case (Suc n)
  let ?cfg = "config (snd a)"
  let ?W = "tumbling_window_size ?cfg"
  let ?k = "length (requests (snd a))"
  from Suc.prems obtain m where m: "(pass_ok http e ^^ n) a m" "pass_ok http e m b" by auto
  from Suc.IH[OF m(1)] obtain ws where ws: "length ws = n"
    "\<forall>acc. plan_loop ?W (fst a) e acc = plan_loop ?W (fst m) e (acc @ ws)"
    "requests (snd m) = requests (snd a) @ map (window_request ?cfg) ws"
    "config (snd m) = ?cfg"
    "frame_rows (df (snd m)) = frame_rows (df (snd a)) @
      concat (map (\<lambda>i. response_rows (http (?k + i) (base_url ?cfg) (window_request ?cfg (ws ! i))))
        [0..<n])"
    by blast
  have lt: "fst m < e" and lb: "loop_body http (fst m) e (snd m) = (Inr (fst b), snd b)"
    using m(2) by (simp_all add: pass_ok_def)
  from loop_body_Inr[OF lb] obtain w wdf where
    w: "next_window ?W (fst m) e = Inr (w, fst b)"
    and rq: "requests (snd b) = requests (snd m) @ [window_request ?cfg w]"
    and cf: "config (snd b) = ?cfg"
    and d: "df (snd b) = pd_concat (df (snd m)) wdf"
    and fr: "frame_rows wdf = response_rows (http (length (requests (snd m))) (base_url ?cfg)
               (window_request ?cfg w))"
    unfolding ws(4) window_request_def by blast
  have len: "length (requests (snd m)) = ?k + n" using ws(1,3) by simp
  have p: "\<forall>acc. plan_loop ?W (fst a) e acc = plan_loop ?W (fst b) e (acc @ (ws @ [w]))"
  proof
    fix acc
    have "plan_loop ?W (fst m) e (acc @ ws) = plan_loop ?W (fst b) e ((acc @ ws) @ [w])"
      using lt w by (subst plan_loop.simps) simp
    then show "plan_loop ?W (fst a) e acc = plan_loop ?W (fst b) e (acc @ (ws @ [w]))"
      using ws(2) by simp
  qed
  have same: "map (\<lambda>i. response_rows (http (?k + i) (base_url ?cfg)
                 (window_request ?cfg ((ws @ [w]) ! i)))) [0..<n] =
      map (\<lambda>i. response_rows (http (?k + i) (base_url ?cfg) (window_request ?cfg (ws ! i)))) [0..<n]"
    by (rule map_cong) (simp_all add: ws(1) nth_append)
  have rows: "frame_rows (df (snd b)) = frame_rows (df (snd a)) @
      concat (map (\<lambda>i. response_rows (http (?k + i) (base_url ?cfg)
                 (window_request ?cfg ((ws @ [w]) ! i)))) [0..<Suc n])"
  proof -
    have last: "(ws @ [w]) ! n = w" using ws(1) by (simp add: nth_append)
    have "concat (map (\<lambda>i. response_rows (http (?k + i) (base_url ?cfg)
                 (window_request ?cfg ((ws @ [w]) ! i)))) [0..<Suc n]) =
        concat (map (\<lambda>i. response_rows (http (?k + i) (base_url ?cfg)
                 (window_request ?cfg ((ws @ [w]) ! i)))) [0..<n]) @
        response_rows (http (?k + n) (base_url ?cfg) (window_request ?cfg w))"
      by (simp add: last)
    also have "\<dots> = concat (map (\<lambda>i. response_rows (http (?k + i) (base_url ?cfg)
                 (window_request ?cfg (ws ! i)))) [0..<n]) @
        response_rows (http (?k + n) (base_url ?cfg) (window_request ?cfg w))"
      by (simp only: same)
    finally show ?thesis using ws(5) by (simp add: d pd_concat_def fr len)
  qed
  have "length (ws @ [w]) = Suc n" using ws(1) by simp
  moreover have "requests (snd b) = requests (snd a) @ map (window_request ?cfg) (ws @ [w])"
    using rq ws(3) by simp
  ultimately show ?case using p cf rows by blast
qed

text \<open>
  C8. After \<open>n\<close> fetched and merged windows, the \<open>n\<close> windows are the ones the planning
  loop emits from the starting cursor, one request was sent for each in that order, and
  the rows of the table are the rows it started with followed by the batches parsed from
  the responses to those requests, batch after batch in window order and each batch in
  its own order. The same holds of the table a completed collection returns, for all the
  windows of the day's plan.
\<close>

theorem accumulation_preserves_order:
  "((pass_ok http end_time ^^ n) (cur0, s0) (cur, s) \<longrightarrow>
      (\<exists>ws. length ws = n \<and>
         (\<forall>acc. plan_loop (tumbling_window_size (config s0)) cur0 end_time acc =
                plan_loop (tumbling_window_size (config s0)) cur end_time (acc @ ws)) \<and>
         requests s = requests s0 @ map (window_request (config s0)) ws \<and>
         frame_rows (df s) = frame_rows (df s0) @
           concat (map (\<lambda>i. response_rows (http (length (requests s0) + i)
                      (base_url (config s0)) (window_request (config s0) (ws ! i))))
             [0..<n]))) \<and>
   (get_api_data http D s0 = Some (Inr d, s) \<longrightarrow>
      (\<exists>ws. plan_windows (tumbling_window_size (config s0)) D = Some (ws, None) \<and>
         requests s = requests s0 @ map (window_request (config s0)) ws \<and>
         frame_rows d = frame_rows (df s0) @
           concat (map (\<lambda>i. response_rows (http (length (requests s0) + i)
                      (base_url (config s0)) (window_request (config s0) (ws ! i))))
             [0..<length ws])))"
proof (intro conjI impI)
  assume "(pass_ok http end_time ^^ n) (cur0, s0) (cur, s)"
  from relpow_plan[OF this] show "\<exists>ws. length ws = n \<and>
         (\<forall>acc. plan_loop (tumbling_window_size (config s0)) cur0 end_time acc =
                plan_loop (tumbling_window_size (config s0)) cur end_time (acc @ ws)) \<and>
         requests s = requests s0 @ map (window_request (config s0)) ws \<and>
         frame_rows (df s) = frame_rows (df s0) @
           concat (map (\<lambda>i. response_rows (http (length (requests s0) + i)
                      (base_url (config s0)) (window_request (config s0) (ws ! i))))
             [0..<n])"
    by auto
next
  assume g: "get_api_data http D s0 = Some (Inr d, s)"
  then obtain st en where b: "day_bounds D = Inr (st, en)"
    and l: "api_loop http st en s0 = Some (Inr d, s)"
    by (auto simp: get_api_data_def split: sum.splits prod.splits)
  from api_loop_success_reach[OF l] obtain c where
    c: "(pass_ok http en)\<^sup>*\<^sup>* (st, s0) (c, s)" "\<not> c < en" "d = df s" by blast
  from c(1) obtain n where "(pass_ok http en ^^ n) (st, s0) (c, s)"
    by (auto simp: rtranclp_power)
  from relpow_plan[OF this] obtain ws where ws: "length ws = n"
    "\<forall>acc. plan_loop (tumbling_window_size (config s0)) st en acc =
           plan_loop (tumbling_window_size (config s0)) c en (acc @ ws)"
    "requests s = requests s0 @ map (window_request (config s0)) ws"
    "frame_rows (df s) = frame_rows (df s0) @
      concat (map (\<lambda>i. response_rows (http (length (requests s0) + i)
                 (base_url (config s0)) (window_request (config s0) (ws ! i))))
        [0..<n])"
    by auto
  have "plan_loop (tumbling_window_size (config s0)) c en ([] @ ws) = Some (ws, None)"
    using c(2) by (subst plan_loop.simps) simp
  then have "plan_windows (tumbling_window_size (config s0)) D = Some (ws, None)"
    using ws(2) by (simp add: plan_windows_def b)
  then show "\<exists>ws. plan_windows (tumbling_window_size (config s0)) D = Some (ws, None) \<and>
         requests s = requests s0 @ map (window_request (config s0)) ws \<and>
         frame_rows d = frame_rows (df s0) @
           concat (map (\<lambda>i. response_rows (http (length (requests s0) + i)
                      (base_url (config s0)) (window_request (config s0) (ws ! i))))
             [0..<length ws])"
    using ws(1,3,4) c(3) by blast
qed

lemma next_window_half_day:
  "next_window 43200 63865929600 63866015999 =
     Inr (\<lparr>window_end = 63865929600, window_start = 63865972799\<rparr>, 63865972800)"
  "next_window 43200 63865972800 63866015999 =
     Inr (\<lparr>window_end = 63865972800, window_start = 63866015999\<rparr>, 63866016000)"
  by (simp_all add: next_window_def timedelta_seconds_def dt_add_def dt_sub_def
      datetime_max_def MAXORDINAL_def)

lemma response_rows_by_call:
  "response_rows (net_by_call 0 u p) = [From_record [(''title'', CStr ''A'')]]"
  "response_rows (net_by_call (Suc k) u p) =
     [From_record [(''title'', CStr ''B'')], From_record [(''title'', CStr ''C'')]]"
  by (simp_all add: response_rows_def net_by_call_def DataFrame_def)

lemma half_day_run:
  "\<exists>d s. get_api_data net_by_call \<lparr>year = 2024, month = 10, day = 31\<rparr>
       (IvWikipediaData (Some (ApiConfig\<lparr>tumbling_window_size := 43200\<rparr>))) = Some (Inr d, s)"
proof -
  let ?s0 = "IvWikipediaData (Some (ApiConfig\<lparr>tumbling_window_size := 43200\<rparr>))"
  have c0: "tumbling_window_size (config ?s0) = 43200" "limit (config ?s0) = 500"
    "requests ?s0 = []"
    by (simp_all add: IvWikipediaData_def ApiConfig_def)
  let ?r1 = "\<lparr>status_code = 200, body_text = [],
               recentchanges = Some [Obj [(''title'', CStr ''A'')]]\<rparr>"
  let ?r2 = "\<lparr>status_code = 200, body_text = [],
               recentchanges = Some [Obj [(''title'', CStr ''B'')], Obj [(''title'', CStr ''C'')]]\<rparr>"
  obtain f1 where f1: "DataFrame [Obj [(''title'', CStr ''A'')]] = Inr f1"
    "frame_rows f1 = map record_row [Obj [(''title'', CStr ''A'')]]"
    using DataFrame_records[of "[Obj [(''title'', CStr ''A'')]]"] by auto
  obtain f2 where f2: "DataFrame [Obj [(''title'', CStr ''B'')], Obj [(''title'', CStr ''C'')]] = Inr f2"
    "frame_rows f2 = map record_row [Obj [(''title'', CStr ''B'')], Obj [(''title'', CStr ''C'')]]"
    using DataFrame_records[of "[Obj [(''title'', CStr ''B'')], Obj [(''title'', CStr ''C'')]]"] by auto
  have n1: "next_window (tumbling_window_size (config ?s0)) 63865929600 63866015999 =
     Inr (\<lparr>window_end = 63865929600, window_start = 63865972799\<rparr>, 63865972800)"
    unfolding c0 by (rule next_window_half_day)
  have h1: "net_by_call (length (requests ?s0)) (base_url (config ?s0))
      (get_api_params (config ?s0)
         (Strftime (window_start \<lparr>window_end = 63865929600, window_start = 63865972799\<rparr>))
         (Strftime (window_end \<lparr>window_end = 63865929600, window_start = 63865972799\<rparr>))) = Some ?r1"
    by (simp add: net_by_call_def c0)
  have l1: "int (length (frame_rows f1)) \<noteq> limit (config ?s0)" by (simp add: f1 c0)
  from loop_body_success[where http=net_by_call and s="?s0" and resp="?r1"
      and cur=63865929600 and e=63866015999, OF n1 h1 _ _ f1(1) l1]
  obtain s1 where s1: "loop_body net_by_call 63865929600 63866015999 ?s0 = (Inr 63865972800, s1)"
    by auto
  from loop_body_Inr[OF s1] have c1: "config s1 = config ?s0" "length (requests s1) = 1"
    by (auto simp: c0)
  have n2: "next_window (tumbling_window_size (config s1)) 63865972800 63866015999 =
     Inr (\<lparr>window_end = 63865972800, window_start = 63866015999\<rparr>, 63866016000)"
    unfolding c1 c0 by (rule next_window_half_day)
  have h2: "net_by_call (length (requests s1)) (base_url (config s1))
      (get_api_params (config s1)
         (Strftime (window_start \<lparr>window_end = 63865972800, window_start = 63866015999\<rparr>))
         (Strftime (window_end \<lparr>window_end = 63865972800, window_start = 63866015999\<rparr>))) = Some ?r2"
    by (simp add: net_by_call_def c1)
  have l2: "int (length (frame_rows f2)) \<noteq> limit (config s1)" by (simp add: f2 c1 c0)
  from loop_body_success[where http=net_by_call and s=s1 and resp="?r2"
      and cur=63865972800 and e=63866015999, OF n2 h2 _ _ f2(1) l2]
  obtain s2 where s2: "loop_body net_by_call 63865972800 63866015999 s1 = (Inr 63866016000, s2)"
    by auto
  have "api_loop net_by_call 63866016000 63866015999 s2 = Some (Inr (df s2), s2)"
    by (subst api_loop.simps) simp
  then have "api_loop net_by_call 63865972800 63866015999 s1 = Some (Inr (df s2), s2)"
    by (subst api_loop.simps) (simp add: s2)
  then have "api_loop net_by_call 63865929600 63866015999 ?s0 = Some (Inr (df s2), s2)"
    by (subst api_loop.simps) (simp add: s1)
  then show ?thesis by (simp add: get_api_data_def day_bounds_2024_10_31)
qed

lemma half_day_plan:
  "plan_windows 43200 \<lparr>year = 2024, month = 10, day = 31\<rparr> =
     Some ([\<lparr>window_end = 63865929600, window_start = 63865972799\<rparr>,
            \<lparr>window_end = 63865972800, window_start = 63866015999\<rparr>], None)"
  by (simp add: plan_windows_def day_bounds_2024_10_31)
     (subst plan_loop.simps, simp add: next_window_half_day,
      subst plan_loop.simps, simp add: next_window_half_day,
      subst plan_loop.simps, simp)

text \<open>
  The instance of C8 on 2024-10-31 with two half-day windows, the first answered with the
  record A and the second with the records B and C: the collection completes, the two
  requests were sent in window order, and the table returned is A, B, C.
\<close>

theorem accumulation_preserves_order_witness:
  "\<exists>d s. get_api_data net_by_call \<lparr>year = 2024, month = 10, day = 31\<rparr>
       (IvWikipediaData (Some (ApiConfig\<lparr>tumbling_window_size := 43200\<rparr>))) = Some (Inr d, s) \<and>
     map rcend (requests s) = [Strftime 63865929600, Strftime 63865972800] \<and>
     frame_rows d = [From_record [(''title'', CStr ''A'')], From_record [(''title'', CStr ''B'')],
                     From_record [(''title'', CStr ''C'')]]"
proof -
  let ?s0 = "IvWikipediaData (Some (ApiConfig\<lparr>tumbling_window_size := 43200\<rparr>))"
  let ?D = "\<lparr>year = 2024, month = 10, day = 31\<rparr>"
  obtain d s where g: "get_api_data net_by_call ?D ?s0 = Some (Inr d, s)"
    using half_day_run by blast
  have c0: "tumbling_window_size (config ?s0) = 43200" "requests ?s0 = []"
    "frame_rows (df ?s0) = []"
    by (simp_all add: IvWikipediaData_def ApiConfig_def create_empty_dataframe_def)
  from accumulation_preserves_order[where http=net_by_call and ?s0.0="?s0" and D="?D" and d=d and s=s, THEN conjunct2] g
  obtain ws where ws: "plan_windows (tumbling_window_size (config ?s0)) ?D = Some (ws, None)"
    "requests s = requests ?s0 @ map (window_request (config ?s0)) ws"
    "frame_rows d = frame_rows (df ?s0) @
           concat (map (\<lambda>i. response_rows (net_by_call (length (requests ?s0) + i)
                      (base_url (config ?s0)) (window_request (config ?s0) (ws ! i))))
             [0..<length ws])"
    by blast
  have w: "ws = [\<lparr>window_end = 63865929600, window_start = 63865972799\<rparr>,
            \<lparr>window_end = 63865972800, window_start = 63866015999\<rparr>]"
    using ws(1) by (simp add: c0 half_day_plan)
  have u: "[0..<length ws] = [0, Suc 0]" by (simp add: w upt_rec)
  have "frame_rows d = [From_record [(''title'', CStr ''A'')], From_record [(''title'', CStr ''B'')],
                     From_record [(''title'', CStr ''C'')]]"
    unfolding ws(3) u by (simp add: c0 response_rows_by_call)
  moreover have "map rcend (requests s) = [Strftime 63865929600, Strftime 63865972800]"
    unfolding ws(2) w by (simp add: c0 window_request_def get_api_params_def)
  ultimately show ?thesis using g by (intro exI[of _ d] exI[of _ s]) simp
qed





lemma first_pass_two_rows:
  "\<exists>s1. loop_body net_two_rows 63865929600 63866015999 (IvWikipediaData None) = (Inr 63865929630, s1)"
proof -
  obtain f where f: "DataFrame [Obj [(''title'', CStr ''A'')], Obj [(''title'', CStr ''B''), (''userid'', CInt 7)]] = Inr f"
    "length (frame_rows f) = 2" using DataFrame_two_rows by blast
  show ?thesis
    by (simp add: loop_body_def Let_def default_config next_window_2024_30 logger_fields
        fetch_tumbling_window_data_def net_two_rows_def f)
qed



lemma relpow_inv:
  assumes "(pass_ok http e ^^ n) a b"
  shows "config (snd b) = config (snd a) \<and>
    length (requests (snd b)) = length (requests (snd a)) + n \<and>
    (\<forall>i. length (requests (snd a)) \<le> i \<and> i < length (requests (snd b)) \<longrightarrow>
       int (length (response_rows (http i (base_url (config (snd a))) (requests (snd b) ! i))))
         \<noteq> limit (config (snd a))) \<and>
    ((\<forall>i u p. int (length (response_rows (http i u p))) \<le> limit (config (snd a))) \<longrightarrow>
       int (length (frame_rows (df (snd b)))) \<le>
         int (length (frame_rows (df (snd a)))) + int n * (limit (config (snd a)) - 1))"
  using assms
proof (induction n arbitrary: b)
  case 0
  then show ?case by simp
next
  case (Suc n)
  from Suc.prems obtain m where m: "(pass_ok http e ^^ n) a m" "pass_ok http e m b" by auto
  note ih = Suc.IH[OF m(1)]
  note f = pass_ok_facts[OF m(2)]
  from f(2) obtain p where p: "requests (snd b) = requests (snd m) @ [p]" by blast
  have cfg: "config (snd m) = config (snd a)" using ih by simp
  let ?L = "limit (config (snd a))"
  let ?B = "response_rows (http (length (requests (snd m))) (base_url (config (snd a)))
         (requests (snd b) ! length (requests (snd m))))"
  have rows: "frame_rows (df (snd b)) = frame_rows (df (snd m)) @ ?B" using f(3) cfg by simp
  have ne: "int (length ?B) \<noteq> ?L" using f(4) rows cfg by simp
  have c1: "config (snd b) = config (snd a)" using f(1) cfg by simp
  have c2: "length (requests (snd b)) = length (requests (snd a)) + Suc n" using p ih by simp
  have c3: "\<forall>i. length (requests (snd a)) \<le> i \<and> i < length (requests (snd b)) \<longrightarrow>
       int (length (response_rows (http i (base_url (config (snd a))) (requests (snd b) ! i)))) \<noteq> ?L"
  proof (intro allI impI)
    fix i assume i: "length (requests (snd a)) \<le> i \<and> i < length (requests (snd b))"
    show "int (length (response_rows (http i (base_url (config (snd a))) (requests (snd b) ! i)))) \<noteq> ?L"
    proof (cases "i < length (requests (snd m))")
      case True
      then have "requests (snd b) ! i = requests (snd m) ! i" by (simp add: p nth_append)
      then show ?thesis using ih i True by simp
    next
      case False
      then have "i = length (requests (snd m))" using i p by simp
      then show ?thesis using ne by simp
    qed
  qed
  have c4: "(\<forall>i u p. int (length (response_rows (http i u p))) \<le> ?L) \<longrightarrow>
       int (length (frame_rows (df (snd b)))) \<le>
         int (length (frame_rows (df (snd a)))) + int (Suc n) * (?L - 1)"
  proof
    assume cap: "\<forall>i u p. int (length (response_rows (http i u p))) \<le> ?L"
    then have "int (length ?B) \<le> ?L" by blast
    with ne have "int (length ?B) \<le> ?L - 1" by simp
    moreover have "int (length (frame_rows (df (snd m)))) \<le>
         int (length (frame_rows (df (snd a)))) + int n * (?L - 1)" using ih cap by blast
    ultimately show "int (length (frame_rows (df (snd b)))) \<le>
         int (length (frame_rows (df (snd a)))) + int (Suc n) * (?L - 1)"
      by (simp add: rows algebra_simps)
  qed
  show ?case using c1 c2 c3 c4 by blast
qed

text \<open>
  C10 (as amended). After \<open>n\<close> fetched and merged windows, \<open>n\<close> requests were sent and
  the batch of each has a size different from the limit. If moreover no response carries
  more rows than the limit, each merged batch is strictly smaller than the limit and the
  table has grown by at most \<open>n * (limit - 1)\<close> rows.
\<close>

theorem batches_below_limit_when_capped:
  assumes "(pass_ok http end_time ^^ n) (cur0, s0) (cur, s)"
  shows "length (requests s) = length (requests s0) + n \<and>
    (\<forall>i. length (requests s0) \<le> i \<and> i < length (requests s) \<longrightarrow>
       int (length (response_rows (http i (base_url (config s0)) (requests s ! i)))) \<noteq> limit (config s0)) \<and>
    ((\<forall>i u p. int (length (response_rows (http i u p))) \<le> limit (config s0)) \<longrightarrow>
       (\<forall>i. length (requests s0) \<le> i \<and> i < length (requests s) \<longrightarrow>
          int (length (response_rows (http i (base_url (config s0)) (requests s ! i)))) < limit (config s0)) \<and>
       int (length (frame_rows (df s))) \<le>
         int (length (frame_rows (df s0))) + int n * (limit (config s0) - 1))"
proof (intro conjI)
  note r = relpow_inv[OF assms, simplified]
  show "length (requests s) = length (requests s0) + n" using r by simp
  show c: "\<forall>i. length (requests s0) \<le> i \<and> i < length (requests s) \<longrightarrow>
       int (length (response_rows (http i (base_url (config s0)) (requests s ! i)))) \<noteq> limit (config s0)"
    using r by simp
  show "(\<forall>i u p. int (length (response_rows (http i u p))) \<le> limit (config s0)) \<longrightarrow>
       (\<forall>i. length (requests s0) \<le> i \<and> i < length (requests s) \<longrightarrow>
          int (length (response_rows (http i (base_url (config s0)) (requests s ! i)))) < limit (config s0)) \<and>
       int (length (frame_rows (df s))) \<le>
         int (length (frame_rows (df s0))) + int n * (limit (config s0) - 1)"
  proof (intro impI conjI allI)
    fix i
    assume cap: "\<forall>i u p. int (length (response_rows (http i u p))) \<le> limit (config s0)"
      and i: "length (requests s0) \<le> i \<and> i < length (requests s)"
    have "int (length (response_rows (http i (base_url (config s0)) (requests s ! i)))) \<le> limit (config s0)"
      using cap by blast
    moreover have "int (length (response_rows (http i (base_url (config s0)) (requests s ! i)))) \<noteq> limit (config s0)"
      using c i by blast
    ultimately show "int (length (response_rows (http i (base_url (config s0)) (requests s ! i)))) < limit (config s0)"
      by simp
  next
    assume cap: "\<forall>i u p. int (length (response_rows (http i u p))) \<le> limit (config s0)"
    then show "int (length (frame_rows (df s))) \<le>
         int (length (frame_rows (df s0))) + int n * (limit (config s0) - 1)"
      using r by blast
  qed
qed

lemma response_rows_two: "length (response_rows (net_two_rows i u p)) = 2"
  by (simp add: response_rows_def net_two_rows_def DataFrame_def)

text \<open>The instance of C10 after the first window of 2024-10-31 under the default limit.\<close>

theorem batches_below_limit_when_capped_witness:
  "length (requests (snd (loop_body net_two_rows 63865929600 63866015999 (IvWikipediaData None)))) = 1 \<and>
   int (length (response_rows (net_two_rows 0 (base_url ApiConfig)
      (requests (snd (loop_body net_two_rows 63865929600 63866015999 (IvWikipediaData None))) ! 0))))
     < 500 \<and>
   int (length (frame_rows (df (snd (loop_body net_two_rows 63865929600 63866015999
      (IvWikipediaData None)))))) \<le> 499"
proof -
  let ?s0 = "IvWikipediaData None"
  obtain s1 where s1: "loop_body net_two_rows 63865929600 63866015999 ?s0 = (Inr 63865929630, s1)"
    using first_pass_two_rows by blast
  have "pass_ok net_two_rows 63866015999 (63865929600, ?s0) (63865929630, s1)"
    by (simp add: pass_ok_def s1)
  then have p: "(pass_ok net_two_rows 63866015999 ^^ 1) (63865929600, ?s0) (63865929630, s1)"
    by auto
  have cap: "\<forall>i u p. int (length (response_rows (net_two_rows i u p))) \<le> limit (config ?s0)"
    by (simp add: response_rows_two default_config)
  have e: "length (frame_rows (df ?s0)) = 0" "length (requests ?s0) = 0"
    by (simp_all add: default_config create_empty_dataframe_def)
  note t = batches_below_limit_when_capped[OF p]
  note t1 = t[THEN conjunct1] and t3 = t[THEN conjunct2, THEN conjunct2]
  have a: "length (requests s1) = 1" using t1 e by simp
  have b: "int (length (frame_rows (df s1))) \<le> 499" using t3 cap e by (simp add: default_config)
  have c: "int (length (response_rows (net_two_rows 0 (base_url ApiConfig) (requests s1 ! 0)))) < 500"
    using t3 cap e a by (simp add: default_config)
  show ?thesis using a b c by (simp add: s1)
qed

text \<open>
  C10 as stated fails: the check before the merge is an equality. Under a limit of 1 a
  response of two records passes it and both rows are merged.
\<close>

theorem oversized_batch_is_merged:
  "limit (config (IvWikipediaData (Some (ApiConfig\<lparr>limit := 1\<rparr>)))) = 1 \<and>
   fst (loop_body net_two_rows 63865929600 63866015999
          (IvWikipediaData (Some (ApiConfig\<lparr>limit := 1\<rparr>)))) = Inr 63865929630 \<and>
   length (frame_rows (df (snd (loop_body net_two_rows 63865929600 63866015999
          (IvWikipediaData (Some (ApiConfig\<lparr>limit := 1\<rparr>))))))) = 2"
proof -
  let ?s = "IvWikipediaData (Some (ApiConfig\<lparr>limit := 1\<rparr>))"
  let ?recs = "[Obj [(''title'', CStr ''A'')], Obj [(''title'', CStr ''B''), (''userid'', CInt 7)]]"
  let ?r = "\<lparr>status_code = 200, body_text = [], recentchanges = Some ?recs\<rparr>"
  have c: "limit (config ?s) = 1" "tumbling_window_size (config ?s) = 30"
    "df ?s = create_empty_dataframe"
    by (simp_all add: IvWikipediaData_def ApiConfig_def)
  have a: "next_window (tumbling_window_size (config ?s)) 63865929600 63866015999 =
     Inr (\<lparr>window_end = 63865929600, window_start = 63865929629\<rparr>, 63865929630)"
    unfolding c by (rule next_window_2024_30)
  have b: "net_two_rows (length (requests ?s)) (base_url (config ?s))
      (get_api_params (config ?s)
         (Strftime (window_start \<lparr>window_end = 63865929600, window_start = 63865929629\<rparr>))
         (Strftime (window_end \<lparr>window_end = 63865929600, window_start = 63865929629\<rparr>))) = Some ?r"
    by (simp add: net_two_rows_def)
  obtain f where f: "DataFrame ?recs = Inr f" "length (frame_rows f) = 2"
    using DataFrame_two_rows by blast
  have ne: "int (length (frame_rows f)) \<noteq> limit (config ?s)" by (simp add: f c)
  from loop_body_success[where http=net_two_rows and s="?s" and resp="?r" and recs="?recs"
      and cur=63865929600 and e=63866015999, OF a b _ _ f(1) ne]
  obtain s' where s': "loop_body net_two_rows 63865929600 63866015999 ?s = (Inr 63865929630, s')"
    "df s' = pd_concat (df ?s) f" by auto
  have "length (frame_rows (df s')) = 2"
    by (simp add: s'(2) pd_concat_def c create_empty_dataframe_def f(2))
  then show ?thesis using s'(1) by (simp add: c)
qed


end
